theory Spec2Isabelle
  imports Main "HOL-Library.AList"
begin

section \<open>The Harmony hub bridge (HarmonyHost)\<close>

text \<open>
  The repository holds one program, the class \<open>HarmonyHost\<close>, in three revisions:
  \<open>src/index.js\<close> and the two files \<open>src/unnamed/part_000\<close> (older) and
  \<open>src/unnamed/part_001\<close> (newer). Definitions without a suffix embed
  \<open>src/index.js\<close>; a definition that embeds a function of another revision carries the
  suffix \<open>_part000\<close> or \<open>_part001\<close>, and exists only where that revision's
  function differs.

  JavaScript objects used as dictionaries are association lists in insertion order:
  \<open>o[k] = v\<close> is \<open>AList.update k v\<close> (an existing key keeps its position, a new key
  goes to the end). A read \<open>o[k]\<close> of a key chosen by a bus message is
  \<open>getProperty o k\<close>: the object's own entry, else a member inherited from
  \<open>Object.prototype\<close>, else \<open>undefined\<close>. An assignment under the key
  \<open>__proto__\<close> would replace the object's prototype instead of adding an entry; the
  statements about the indices built from a catalog assume that the catalog assigns no
  such key.
\<close>

subsection \<open>Errors, promises, hub calls\<close>

datatype error =
    HubFault                  \<comment> \<open>a hub call rejected\<close>
  | TypeError                 \<comment> \<open>a property read of \<open>undefined\<close>\<close>
  | InvalidCommand string     \<comment> \<open>\<open>new Error('Invalid command ' + command)\<close>\<close>
  | NoSuchAction string       \<comment> \<open>\<open>new Error('No such action ' + command)\<close>\<close>
  | NoSuchDevice string       \<comment> \<open>\<open>new Error('No such device ' + deviceSlug)\<close>\<close>

text \<open>What a hub call answers: \<open>Inl\<close> when the call rejects.\<close>

type_synonym 'a reply = "error + 'a"

text \<open>
  The value a settled promise carries, and how it settled; \<open>Pending\<close> is a promise
  that never settles.
\<close>

datatype jsvalue = Undefined | ErrorObject error | HubReturn

datatype promise = Fulfilled jsvalue | Rejected error | Pending

text \<open>The calls made on \<open>this.harmonyClient\<close>, in the order they are issued.\<close>

datatype hubcall =
    GetCurrentActivity
  | IsOff
  | StartActivity string
  | Send string string

subsection \<open>The catalog\<close>

text \<open>
  A function entry of a control group (\<open>func\<close>), a group (\<open>group.function\<close> is the
  field \<open>group_function\<close>, since \<open>function\<close> is reserved), an activity record of
  \<open>harmonyClient.getActivities()\<close> and a device record of
  \<open>harmonyClient.getAvailableCommands().device\<close>.
\<close>

record func =
  name :: string
  label :: string
  action :: string

record command = func +
  slug :: string

record group =
  group_function :: "func list"

record activity =
  activity_id :: string
  activity_label :: string
  activity_controlGroup :: "group list"

record raw_device =
  device_id :: string
  device_label :: string
  device_controlGroup :: "group list"

record device = raw_device +
  device_slug :: string
  device_commands :: "(string \<times> command) list"

subsection \<open>Strings\<close>

text \<open>\<open>s.replace(/:/g, '::')\<close>: every colon is doubled.\<close>

fun escape :: "string \<Rightarrow> string" where
  "escape [] = []"
| "escape (c # cs) = (if c = CHR '':'' then CHR '':'' # CHR '':'' # escape cs else c # escape cs)"

text \<open>
  A token has no unescaped colon when its colons come in adjacent pairs, read from the
  left: every maximal run of colons has even length.
\<close>

fun no_unescaped_colon :: "string \<Rightarrow> bool" where
  "no_unescaped_colon [] = True"
| "no_unescaped_colon [c] = (c \<noteq> CHR '':'')"
| "no_unescaped_colon (c # d # cs) =
     (if c = CHR '':'' then d = CHR '':'' \<and> no_unescaped_colon cs
      else no_unescaped_colon (d # cs))"

text \<open>\<open>s.endsWith(t)\<close>.\<close>

definition endsWith :: "string \<Rightarrow> string \<Rightarrow> bool" where
  "endsWith s t = (length t \<le> length s \<and> drop (length s - length t) s = t)"

text \<open>\<open>s.split('/')\<close>: the pieces between the separators; never empty.\<close>

fun split_slash :: "string \<Rightarrow> string list" where
  "split_slash [] = [[]]"
| "split_slash (c # cs) =
     (if c = CHR ''/'' then [] # split_slash cs
      else (case split_slash cs of p # ps \<Rightarrow> (c # p) # ps | [] \<Rightarrow> [[c]]))"

text \<open>\<open>parts[i]\<close>: \<open>undefined\<close> out of range.\<close>

definition part :: "string list \<Rightarrow> nat \<Rightarrow> string option" where
  "part ps i = (if i < length ps then Some (ps ! i) else None)"

text \<open>A value used as a property key: \<open>undefined\<close> becomes the key \<open>"undefined"\<close>.\<close>

definition propertyKey :: "string option \<Rightarrow> string" where
  "propertyKey v = (case v of None \<Rightarrow> ''undefined'' | Some s \<Rightarrow> s)"

subsection \<open>Property order of an object\<close>

text \<open>
  \<open>Object.keys(o)\<close> lists the keys that are array indices (canonical decimal numerals
  below \<open>2^32 - 1\<close>) in ascending numeric order, then the other keys in insertion order.
\<close>

definition is_digit :: "char \<Rightarrow> bool" where
  "is_digit c = (48 \<le> (of_char c :: int) \<and> (of_char c :: int) \<le> 57)"

definition index_value :: "string \<Rightarrow> int" where
  "index_value s = foldl (\<lambda>n c. 10 * n + ((of_char c :: int) - 48)) 0 s"

definition is_array_index :: "string \<Rightarrow> bool" where
  "is_array_index s =
     (case s of
        [] \<Rightarrow> False
      | c # cs \<Rightarrow>
          list_all is_digit s \<and> (if c = CHR ''0'' then cs = [] else True)
          \<and> index_value s < 4294967295)"

definition ownEntries :: "(string \<times> 'v) list \<Rightarrow> (string \<times> 'v) list" where
  "ownEntries obj =
     sort_key (\<lambda>kv. index_value (fst kv)) (filter (\<lambda>kv. is_array_index (fst kv)) obj)
     @ filter (\<lambda>kv. \<not> is_array_index (fst kv)) obj"

subsection \<open>Reading a property\<close>

text \<open>
  The members of \<open>Object.prototype\<close> in Node.js: every object created by \<open>{}\<close>
  inherits them. Read from such an object, each is a function, and \<open>__proto__\<close> is
  \<open>Object.prototype\<close> itself: a truthy value on which none of the properties the
  program reads (\<open>action\<close>, \<open>commands\<close>, \<open>controlGroup\<close>) is defined.
\<close>

definition objectPrototypeKeys :: "string list" where
  "objectPrototypeKeys =
     [''constructor'', ''__defineGetter__'', ''__defineSetter__'', ''hasOwnProperty'',
      ''__lookupGetter__'', ''__lookupSetter__'', ''isPrototypeOf'',
      ''propertyIsEnumerable'', ''toString'', ''valueOf'', ''__proto__'',
      ''toLocaleString'']"

text \<open>
  What \<open>o[k]\<close> reads: an own entry, an inherited member, or \<open>undefined\<close>. The
  first two are truthy.
\<close>

datatype 'v property = Own 'v | Inherited | Absent

definition getProperty :: "(string \<times> 'v) list \<Rightarrow> string \<Rightarrow> 'v property" where
  "getProperty obj k =
     (case map_of obj k of
        Some v \<Rightarrow> Own v
      | None \<Rightarrow> if k \<in> set objectPrototypeKeys then Inherited else Absent)"

subsection \<open>Building the device index\<close>

text \<open>
  \<open>getCommandsFromControlGroup\<close>. The package \<open>parameterize\<close> is not part of the
  repository: the slug function is the parameter \<open>parameterize\<close>. The callbacks given
  to \<open>some\<close> return \<open>undefined\<close>, so both loops visit every element.
\<close>

definition getCommandsFromControlGroup ::
  "(string \<Rightarrow> string) \<Rightarrow> group list \<Rightarrow> (string \<times> command) list" where
  "getCommandsFromControlGroup parameterize controlGroup =
     foldl (\<lambda>deviceCommands grp.
        foldl (\<lambda>deviceCommands f.
           AList.update (parameterize (label f))
             \<lparr>name = name f, label = label f, action = escape (action f),
              slug = parameterize (label f)\<rparr> deviceCommands)
          deviceCommands (group_function grp))
       [] controlGroup"

subsection \<open>The host object\<close>

text \<open>
  \<open>this.state\<close>. A field that was never assigned is \<open>None\<close>; \<open>startingActivity\<close>
  is also \<open>None\<close> when it holds \<open>null\<close>. The hub reports the current activity as the
  activity's id, a string.
\<close>

record state =
  isOff :: "bool option"
  currentActivity :: "string option"
  startingActivity :: "string option"
  commands :: "(string \<times> func) list option"
  availableCommands :: "raw_device list option"
  activities :: "(string \<times> activity) list option"
  devices :: "(string \<times> device) list option"

text \<open>The fields of \<open>this\<close> that the methods read; \<open>None\<close> before \<open>refresh\<close> has run.\<close>

record host =
  this_activities :: "(string \<times> activity) list option"
  this_devices :: "(string \<times> device) list option"
  this_deviceSlugs :: "(string \<times> device) list option"
  this_state :: state

text \<open>
  Modelled from the spec: the setter of \<open>this.state\<close> belongs to the base class
  \<open>HostBase\<close> of the package \<open>microservice-core\<close>, which is not in the repository.
  The spec calls it in-place field merging of the live state: the fields of the assigned
  object overwrite the snapshot's, every other field stays. The assigned object is given
  as the update it makes.
\<close>

definition set_state :: "(state \<Rightarrow> state) \<Rightarrow> host \<Rightarrow> host" where
  "set_state assigned this = this\<lparr>this_state := assigned (this_state this)\<rparr>"

text \<open>
  What the hub answers to the calls of one operation: to \<open>getCurrentActivity\<close>,
  \<open>isOff\<close>, \<open>startActivity\<close>, and to the first and the second \<open>send\<close>.
\<close>

record hub =
  getCurrentActivity_reply :: "string reply"
  isOff_reply :: "bool reply"
  startActivity_reply :: "unit reply"
  press_reply :: "unit reply"
  release_reply :: "unit reply"

text \<open>
  What a method call leaves behind: the promise it returns, the promises it creates and
  drops (nothing awaits them and nothing catches their rejection), the hub calls issued,
  and the host afterwards.
\<close>

record result =
  settled :: promise
  detached :: "promise list"
  calls :: "hubcall list"
  after :: host

subsection \<open>Catalog indices\<close>

text \<open>The \<open>forEach\<close> of \<open>getActivities\<close>, on the records the hub returned.\<close>

definition getActivities :: "activity list \<Rightarrow> (string \<times> activity) list" where
  "getActivities records = foldl (\<lambda>acts a. AList.update (activity_id a) a acts) [] records"

text \<open>
  The \<open>forEach\<close> of \<open>getDevices\<close>: the first component is the returned \<open>devices\<close>,
  the second is what is stored in \<open>this.deviceSlugs\<close>.
\<close>

definition getDevices ::
  "(string \<Rightarrow> string) \<Rightarrow> raw_device list
     \<Rightarrow> (string \<times> device) list \<times> (string \<times> device) list" where
  "getDevices parameterize catalog =
     foldl (\<lambda>(devs, slugs) d.
        let dev = \<lparr>device_id = device_id d, device_label = device_label d,
                   device_controlGroup = device_controlGroup d,
                   device_slug = parameterize (device_label d),
                   device_commands =
                     getCommandsFromControlGroup parameterize (device_controlGroup d)\<rparr>
        in (AList.update (device_id dev) dev devs, AList.update (device_slug dev) dev slugs))
       ([], []) catalog"

text \<open>
  \<open>getCommands\<close>: reading \<open>controlGroup\<close> of a missing activity throws a TypeError.
  Under an inherited key the read gives a value without \<open>controlGroup\<close>, and the
  \<open>forEach\<close> throws the same.
\<close>

definition getCommands :: "host \<Rightarrow> error + (string \<times> func) list" where
  "getCommands this =
     (case activities (this_state this) of
        None \<Rightarrow> Inl TypeError
      | Some acts \<Rightarrow>
          (case map_of acts (propertyKey (currentActivity (this_state this))) of
             None \<Rightarrow> Inl TypeError
           | Some currentAct \<Rightarrow>
               Inr (foldl (\<lambda>cmds grp.
                      foldl (\<lambda>cmds f. AList.update (name f) f cmds) cmds (group_function grp))
                    [] (activity_controlGroup currentAct))))"

subsection \<open>Starting an activity\<close>

text \<open>
  \<open>findActivity\<close>. The payload is a string, so \<open>activities[activity]\<close> and
  \<open>activities[String(activity)]\<close> read the same key; both reads are kept. A read is
  truthy for an own entry and for an inherited member alike. The scan goes over
  \<open>Object.keys\<close>, the own keys. Nothing in the \<open>try\<close> block can throw on these
  types.
\<close>

definition findActivity :: "host \<Rightarrow> string \<Rightarrow> string option" where
  "findActivity this act =
     (case this_activities this of
        None \<Rightarrow> None
      | Some acts \<Rightarrow>
          (case getProperty acts act of
             Own _ \<Rightarrow> Some act
           | Inherited \<Rightarrow> Some act
           | Absent \<Rightarrow>
               (case getProperty acts act of
                  Own _ \<Rightarrow> Some act
                | Inherited \<Rightarrow> Some act
                | Absent \<Rightarrow>
                    (case find (\<lambda>kv. activity_label (snd kv) = act) (ownEntries acts) of
                       Some kv \<Rightarrow> Some (fst kv)
                     | None \<Rightarrow> None))))"

text \<open>
  \<open>startActivity\<close>. \<open>!activity\<close> holds for \<open>null\<close> and for the empty string.
  Publishing goes through \<open>HostBase\<close> and the bus client and is not modelled.
\<close>

definition startActivity :: "host \<Rightarrow> string \<Rightarrow> hub \<Rightarrow> result" where
  "startActivity this payload h =
     (case findActivity this payload of
        None \<Rightarrow> \<lparr>settled = Fulfilled Undefined, detached = [], calls = [], after = this\<rparr>
      | Some act \<Rightarrow>
          if act = [] then
            \<lparr>settled = Fulfilled Undefined, detached = [], calls = [], after = this\<rparr>
          else
            (let this1 = set_state (\<lambda>s. s\<lparr>startingActivity := Some act\<rparr>) this in
             case startActivity_reply h of
               Inl e \<Rightarrow>
                 \<lparr>settled = Rejected e, detached = [], calls = [StartActivity act],
                  after = this1\<rparr>
             | Inr _ \<Rightarrow>
                 \<lparr>settled = Fulfilled HubReturn, detached = [], calls = [StartActivity act],
                  after = set_state (\<lambda>s. s\<lparr>startingActivity := None\<rparr>) this1\<rparr>))"

subsection \<open>Polling\<close>

text \<open>
  One pass through the body of \<open>while (true)\<close> in \<open>poll\<close>: the host afterwards,
  whether \<open>getCommands\<close> was called, and the exception the \<open>catch\<close> logged, if any.
  \<open>Inl\<close> would be an exception leaving the loop body, which ends the loop. Here no
  message is handled while the pass awaits the hub; \<open>poll_iteration_interleaved\<close>
  below is the pass with such handlers.
\<close>

record iteration =
  this_after :: host
  getCommands_called :: bool
  caught :: "error option"

definition poll_iteration :: "host \<Rightarrow> hub \<Rightarrow> error + iteration" where
  "poll_iteration this h =
     (let startingAct = startingActivity (this_state this) in
      case getCurrentActivity_reply h of
        Inl e \<Rightarrow> Inr \<lparr>this_after = this, getCommands_called = False, caught = Some e\<rparr>
      | Inr currentAct \<Rightarrow>
          (let newActivity = (currentActivity (this_state this) \<noteq> Some currentAct);
               newStartingActivity =
                 (if startingAct = Some currentAct then None else startingAct)
           in case isOff_reply h of
                Inl e \<Rightarrow> Inr \<lparr>this_after = this, getCommands_called = False, caught = Some e\<rparr>
              | Inr off \<Rightarrow>
                  (let this1 = set_state (\<lambda>s. s\<lparr>isOff := Some off,
                                 currentActivity := Some currentAct,
                                 startingActivity := newStartingActivity\<rparr>) this
                   in if newActivity then
                        (case getCommands this1 of
                           Inl e \<Rightarrow>
                             Inr \<lparr>this_after = this1, getCommands_called = True,
                                  caught = Some e\<rparr>
                         | Inr cmds \<Rightarrow>
                             Inr \<lparr>this_after = set_state (\<lambda>s. s\<lparr>commands := Some cmds\<rparr>) this1,
                                  getCommands_called = True, caught = None\<rparr>)
                      else Inr \<lparr>this_after = this1, getCommands_called = False,
                                caught = None\<rparr>)))"

text \<open>
  The loop itself has no exit. It is run here on the hub's answers to a finite number of
  passes; \<open>Inl\<close> is the loop ended by an exception before the answers are used up.
\<close>

fun poll :: "host \<Rightarrow> hub list \<Rightarrow> error + host" where
  "poll this [] = Inr this"
| "poll this (h # hs) =
     (case poll_iteration this h of
        Inl e \<Rightarrow> Inl e
      | Inr it \<Rightarrow> poll (this_after it) hs)"

text \<open>
  The same pass with the message handlers that run while it awaits the hub:
  \<open>during_fetch\<close> is what they do to the host during \<open>await
  this.getCurrentActivity()\<close>, \<open>during_isOff\<close> what they do during \<open>await
  this.harmonyClient.isOff()\<close>. \<open>startingActivity\<close> is read before the first await;
  \<open>this.state.currentActivity\<close> is read after it; the assignment to \<open>this.state\<close>
  comes after the second and merges into the state of that moment.
\<close>

definition poll_iteration_interleaved ::
  "host \<Rightarrow> hub \<Rightarrow> (host \<Rightarrow> host) \<Rightarrow> (host \<Rightarrow> host) \<Rightarrow> error + iteration" where
  "poll_iteration_interleaved this h during_fetch during_isOff =
     (let startingAct = startingActivity (this_state this);
          this1 = during_fetch this
      in case getCurrentActivity_reply h of
        Inl e \<Rightarrow> Inr \<lparr>this_after = this1, getCommands_called = False, caught = Some e\<rparr>
      | Inr currentAct \<Rightarrow>
          (let newActivity = (currentActivity (this_state this1) \<noteq> Some currentAct);
               newStartingActivity =
                 (if startingAct = Some currentAct then None else startingAct);
               this2 = during_isOff this1
           in case isOff_reply h of
                Inl e \<Rightarrow> Inr \<lparr>this_after = this2, getCommands_called = False, caught = Some e\<rparr>
              | Inr off \<Rightarrow>
                  (let this3 = set_state (\<lambda>s. s\<lparr>isOff := Some off,
                                 currentActivity := Some currentAct,
                                 startingActivity := newStartingActivity\<rparr>) this2
                   in if newActivity then
                        (case getCommands this3 of
                           Inl e \<Rightarrow>
                             Inr \<lparr>this_after = this3, getCommands_called = True,
                                  caught = Some e\<rparr>
                         | Inr cmds \<Rightarrow>
                             Inr \<lparr>this_after = set_state (\<lambda>s. s\<lparr>commands := Some cmds\<rparr>) this3,
                                  getCommands_called = True, caught = None\<rparr>)
                      else Inr \<lparr>this_after = this3, getCommands_called = False,
                                caught = None\<rparr>)))"

subsection \<open>Commands\<close>

text \<open>The string sent with \<open>holdAction\<close>.\<close>

definition holdAction :: "string \<Rightarrow> string \<Rightarrow> hubcall" where
  "holdAction token status = Send ''holdAction'' (''action='' @ token @ '':status='' @ status)"

text \<open>
  The two awaited sends that \<open>command\<close> and \<open>deviceCommand\<close> share: press, then
  release; the first rejection rejects the returned promise.
\<close>

definition pressRelease :: "string \<Rightarrow> hub \<Rightarrow> promise \<times> hubcall list" where
  "pressRelease token h =
     (case press_reply h of
        Inl e \<Rightarrow> (Rejected e, [holdAction token ''press''])
      | Inr _ \<Rightarrow>
          (case release_reply h of
             Inl e \<Rightarrow> (Rejected e, [holdAction token ''press'', holdAction token ''release''])
           | Inr _ \<Rightarrow>
               (Fulfilled Undefined,
                [holdAction token ''press'', holdAction token ''release''])))"

text \<open>
  \<open>command\<close>. \<open>control\<close> is \<open>null\<close> while the command map is unset. Under an
  inherited key \<open>control\<close> is truthy and \<open>control.action\<close> is \<open>undefined\<close>: the
  \<open>replace\<close> throws inside the \<open>async\<close> executor, ahead of its \<open>try\<close>, so the
  executor's own promise rejects with nobody to handle it and the returned promise never
  settles.
\<close>

definition command :: "host \<Rightarrow> string \<Rightarrow> hub \<Rightarrow> result" where
  "command this cmd h =
     (let control = (case commands (this_state this) of
                       None \<Rightarrow> Absent
                     | Some cmds \<Rightarrow> getProperty cmds cmd)
      in case control of
           Absent \<Rightarrow>
             \<lparr>settled = Fulfilled (ErrorObject (InvalidCommand cmd)), detached = [],
              calls = [], after = this\<rparr>
         | Inherited \<Rightarrow>
             \<lparr>settled = Pending, detached = [Rejected TypeError], calls = [], after = this\<rparr>
         | Own ctl \<Rightarrow>
             (let sent = pressRelease (escape (action ctl)) h
              in \<lparr>settled = fst sent, detached = [], calls = snd sent, after = this\<rparr>))"

text \<open>What \<open>findAction\<close> returns: \<open>null\<close>, \<open>undefined\<close> or an action string.\<close>

datatype actionvalue = ActionNull | ActionUndefined | ActionString string

text \<open>
  \<open>findAction\<close>. A missing device gives \<open>null\<close>. A device that is an inherited
  member has no \<open>commands\<close>, and the read \<open>slugs[slug]\<close> throws. Under an inherited
  key \<open>slugs[slug]\<close> is truthy and its \<open>action\<close> is \<open>undefined\<close>, which is
  returned. The scan by name goes over \<open>Object.keys\<close>, the own keys.
\<close>

definition findAction :: "device property \<Rightarrow> string \<Rightarrow> actionvalue reply" where
  "findAction dev slg =
     (case dev of
        Absent \<Rightarrow> Inr ActionNull
      | Inherited \<Rightarrow> Inl TypeError
      | Own d \<Rightarrow>
          (case getProperty (device_commands d) slg of
             Own c \<Rightarrow> Inr (ActionString (action c))
           | Inherited \<Rightarrow> Inr ActionUndefined
           | Absent \<Rightarrow>
               (case find (\<lambda>kv. name (snd kv) = slg) (ownEntries (device_commands d)) of
                  Some kv \<Rightarrow> Inr (ActionString (action (snd kv)))
                | None \<Rightarrow> Inr ActionNull)))"

text \<open>
  \<open>'action=' + action\<close>: \<open>null\<close> and \<open>undefined\<close> are appended as the texts
  \<open>null\<close> and \<open>undefined\<close>. \<open>!action\<close> holds for \<open>null\<close>, for \<open>undefined\<close> and
  for the empty string.
\<close>

definition actionText :: "actionvalue \<Rightarrow> string" where
  "actionText a =
     (case a of ActionNull \<Rightarrow> ''null'' | ActionUndefined \<Rightarrow> ''undefined''
      | ActionString s \<Rightarrow> s)"

definition falsyAction :: "actionvalue \<Rightarrow> bool" where
  "falsyAction a =
     (case a of ActionNull \<Rightarrow> True | ActionUndefined \<Rightarrow> True | ActionString s \<Rightarrow> s = [])"

text \<open>A string that may be \<open>null\<close> or unset is falsy when it is, and when it is empty.\<close>

definition falsy :: "string option \<Rightarrow> bool" where
  "falsy a = (a = None \<or> a = Some [])"

text \<open>
  The first declarator of \<open>deviceCommand\<close>, \<open>device = this.deviceSlugs[deviceSlug]\<close>.
  Reading a key of an unset \<open>this.deviceSlugs\<close> throws.
\<close>

definition resolveDevice :: "host \<Rightarrow> string option \<Rightarrow> device property reply" where
  "resolveDevice this deviceSlug =
     (case this_deviceSlugs this of
        None \<Rightarrow> Inl TypeError
      | Some slugs \<Rightarrow> Inr (getProperty slugs (propertyKey deviceSlug)))"

text \<open>
  \<open>deviceCommand\<close>. The two \<open>Promise.reject(...)\<close> statements create a rejected promise
  and drop it; the method goes on to the sends. An exception before the sends (in the
  first declarator or in \<open>findAction\<close>) rejects the returned promise.
\<close>

definition deviceCommand :: "host \<Rightarrow> string option \<Rightarrow> string \<Rightarrow> hub \<Rightarrow> result" where
  "deviceCommand this deviceSlug cmd h =
     (case resolveDevice this deviceSlug of
        Inl e \<Rightarrow> \<lparr>settled = Rejected e, detached = [], calls = [], after = this\<rparr>
      | Inr dev \<Rightarrow>
          (case findAction dev cmd of
             Inl e \<Rightarrow> \<lparr>settled = Rejected e, detached = [], calls = [], after = this\<rparr>
           | Inr act \<Rightarrow>
               (let dropped = (if falsyAction act then [Rejected (NoSuchAction cmd)] else [])
                       @ (if dev = Absent
                          then [Rejected (NoSuchDevice (propertyKey deviceSlug))] else []);
                    sent = pressRelease (actionText act) h
                in \<lparr>settled = fst sent, detached = dropped, calls = snd sent,
                    after = this\<rparr>)))"

subsection \<open>The message handler\<close>

text \<open>
  The listener registered with \<open>this.client.on('message', ...)\<close>. \<open>settled\<close> is the
  promise the listener returns; the promise of \<open>deviceCommand\<close>, which the listener
  does not await, joins the dropped ones.
\<close>

definition onMessage :: "host \<Rightarrow> string \<Rightarrow> string \<Rightarrow> hub \<Rightarrow> result" where
  "onMessage this topic message h =
     (if endsWith topic ''command'' then command this message h
      else if endsWith topic ''activity'' then startActivity this message h
      else
        (let parts = split_slash topic in
         if part parts 3 = Some ''device'' then
           (let r = deviceCommand this (part parts 4) message h
            in r\<lparr>settled := Fulfilled Undefined, detached := detached r @ [settled r]\<rparr>)
         else \<lparr>settled = Fulfilled Undefined, detached = [], calls = [], after = this\<rparr>))"

section \<open>The other revisions\<close>

subsection \<open>\<open>src/unnamed/part_000\<close>\<close>

text \<open>
  \<open>poll\<close> of the older revision. The current activity is taken from
  \<open>startingActivity\<close> when that is truthy, and fetched otherwise; the fetch stands
  before the \<open>try\<close>, so its exception leaves the loop. \<open>startingActivity\<close> is
  never assigned.
\<close>

definition poll_iteration_part000 :: "host \<Rightarrow> hub \<Rightarrow> error + iteration" where
  "poll_iteration_part000 this h =
     (let startingAct = startingActivity (this_state this) in
      case (case startingAct of
              None \<Rightarrow> getCurrentActivity_reply h
            | Some s \<Rightarrow> if s = [] then getCurrentActivity_reply h else Inr s) of
        Inl e \<Rightarrow> Inl e
      | Inr currentAct \<Rightarrow>
          (let newActivity = (currentActivity (this_state this) \<noteq> Some currentAct)
           in case isOff_reply h of
                Inl e \<Rightarrow> Inr \<lparr>this_after = this, getCommands_called = False, caught = Some e\<rparr>
              | Inr off \<Rightarrow>
                  (let this1 = set_state (\<lambda>s. s\<lparr>isOff := Some off,
                                 currentActivity := Some currentAct\<rparr>) this
                   in if newActivity then
                        (case getCommands this1 of
                           Inl e \<Rightarrow>
                             Inr \<lparr>this_after = this1, getCommands_called = True,
                                  caught = Some e\<rparr>
                         | Inr cmds \<Rightarrow>
                             Inr \<lparr>this_after = set_state (\<lambda>s. s\<lparr>commands := Some cmds\<rparr>) this1,
                                  getCommands_called = True, caught = None\<rparr>)
                      else Inr \<lparr>this_after = this1, getCommands_called = False,
                                caught = None\<rparr>)))"

subsection \<open>\<open>src/unnamed/part_001\<close>\<close>

text \<open>
  \<open>poll\<close> of the newer revision: \<open>newActivity\<close> is set where the polled activity
  equals \<open>startingActivity\<close>.
\<close>

definition poll_iteration_part001 :: "host \<Rightarrow> hub \<Rightarrow> error + iteration" where
  "poll_iteration_part001 this h =
     (let startingAct = startingActivity (this_state this) in
      case getCurrentActivity_reply h of
        Inl e \<Rightarrow> Inr \<lparr>this_after = this, getCommands_called = False, caught = Some e\<rparr>
      | Inr currentAct \<Rightarrow>
          (let arrived = (startingAct = Some currentAct);
               newStartingActivity = (if arrived then None else startingAct);
               newActivity = arrived
           in case isOff_reply h of
                Inl e \<Rightarrow> Inr \<lparr>this_after = this, getCommands_called = False, caught = Some e\<rparr>
              | Inr off \<Rightarrow>
                  (let this1 = set_state (\<lambda>s. s\<lparr>isOff := Some off,
                                 currentActivity := Some currentAct,
                                 startingActivity := newStartingActivity\<rparr>) this
                   in if newActivity then
                        (case getCommands this1 of
                           Inl e \<Rightarrow>
                             Inr \<lparr>this_after = this1, getCommands_called = True,
                                  caught = Some e\<rparr>
                         | Inr cmds \<Rightarrow>
                             Inr \<lparr>this_after = set_state (\<lambda>s. s\<lparr>commands := Some cmds\<rparr>) this1,
                                  getCommands_called = True, caught = None\<rparr>)
                      else Inr \<lparr>this_after = this1, getCommands_called = False,
                                caught = None\<rparr>)))"

text \<open>
  \<open>findAction\<close> of the newer revision reads \<open>device.commands\<close> for its debug line
  before it tests \<open>device\<close>: a missing device throws there, and a device that is an
  inherited member throws at \<open>slugs[slug]\<close> as before.
\<close>

definition findAction_part001 :: "device property \<Rightarrow> string \<Rightarrow> actionvalue reply" where
  "findAction_part001 dev slg =
     (case dev of
        Absent \<Rightarrow> Inl TypeError
      | Inherited \<Rightarrow> findAction Inherited slg
      | Own d \<Rightarrow> findAction (Own d) slg)"

text \<open>
  The first declarator of \<open>deviceCommand\<close> in the newer revision:
  \<open>this.devices[deviceSlug] || this.devices[String(deviceSlug)] ||
  this.devices[Number(deviceSlug)]\<close>, on the map keyed by device id; the first truthy
  read is taken, else the last read. \<open>Number\<close> and the conversion of a number to a
  property key are built into the language: \<open>numberKey s\<close> stands for the key that
  \<open>Number(s)\<close> reads, and \<open>Number(undefined)\<close> reads the key \<open>NaN\<close>.
\<close>

definition resolveDevice_part001 ::
  "(string \<Rightarrow> string) \<Rightarrow> host \<Rightarrow> string option \<Rightarrow> device property reply" where
  "resolveDevice_part001 numberKey this deviceSlug =
     (case this_devices this of
        None \<Rightarrow> Inl TypeError
      | Some devs \<Rightarrow>
          Inr (case getProperty devs (propertyKey deviceSlug) of
                 Own d \<Rightarrow> Own d
               | Inherited \<Rightarrow> Inherited
               | Absent \<Rightarrow>
                   (case getProperty devs (propertyKey deviceSlug) of
                      Own d \<Rightarrow> Own d
                    | Inherited \<Rightarrow> Inherited
                    | Absent \<Rightarrow>
                        getProperty devs (case deviceSlug of
                                            None \<Rightarrow> ''NaN''
                                          | Some s \<Rightarrow> numberKey s))))"

definition deviceCommand_part001 ::
  "(string \<Rightarrow> string) \<Rightarrow> host \<Rightarrow> string option \<Rightarrow> string \<Rightarrow> hub \<Rightarrow> result" where
  "deviceCommand_part001 numberKey this deviceSlug cmd h =
     (case resolveDevice_part001 numberKey this deviceSlug of
        Inl e \<Rightarrow> \<lparr>settled = Rejected e, detached = [], calls = [], after = this\<rparr>
      | Inr dev \<Rightarrow>
          (case findAction_part001 dev cmd of
             Inl e \<Rightarrow> \<lparr>settled = Rejected e, detached = [], calls = [], after = this\<rparr>
           | Inr act \<Rightarrow>
               (let dropped = (if falsyAction act then [Rejected (NoSuchAction cmd)] else [])
                       @ (if dev = Absent
                          then [Rejected (NoSuchDevice (propertyKey deviceSlug))] else []);
                    sent = pressRelease (actionText act) h
                in \<lparr>settled = fst sent, detached = dropped, calls = snd sent,
                    after = this\<rparr>)))"

text \<open>
  The message listener of the newer revision wraps its body in \<open>try\<close>/\<open>catch\<close>: a
  rejection of an awaited call is caught and logged, and the listener's promise fulfils.
  The call of \<open>deviceCommand\<close> is not awaited, so its promise is outside the \<open>try\<close>.
  An awaited promise that never settles leaves the listener's promise pending.
\<close>

definition caughtAtBoundary :: "result \<Rightarrow> result" where
  "caughtAtBoundary r =
     (case settled r of
        Rejected e \<Rightarrow> r\<lparr>settled := Fulfilled Undefined\<rparr>
      | Fulfilled v \<Rightarrow> r
      | Pending \<Rightarrow> r)"

definition onMessage_part001 ::
  "(string \<Rightarrow> string) \<Rightarrow> host \<Rightarrow> string \<Rightarrow> string \<Rightarrow> hub \<Rightarrow> result" where
  "onMessage_part001 numberKey this topic message h =
     (if endsWith topic ''command'' then caughtAtBoundary (command this message h)
      else if endsWith topic ''activity'' then caughtAtBoundary (startActivity this message h)
      else
        (let parts = split_slash topic in
         if part parts 3 = Some ''device'' then
           (let r = deviceCommand_part001 numberKey this (part parts 4) message h
            in r\<lparr>settled := Fulfilled Undefined, detached := detached r @ [settled r]\<rparr>)
         else \<lparr>settled = Fulfilled Undefined, detached = [], calls = [], after = this\<rparr>))"

section \<open>Notions used in the statements\<close>

text \<open>All function entries of a control group, in the order the loops visit them.\<close>

definition catalog_funcs :: "group list \<Rightarrow> func list" where
  "catalog_funcs controlGroup = concat (map group_function controlGroup)"

text \<open>A hub call is a hold-action send (press or release) that carries the token.\<close>

definition sent_token :: "hubcall \<Rightarrow> string \<Rightarrow> bool" where
  "sent_token c t = (c = holdAction t ''press'' \<or> c = holdAction t ''release'')"

text \<open>The entry \<open>getCommandsFromControlGroup\<close> stores for a function entry.\<close>

definition toCommand :: "(string \<Rightarrow> string) \<Rightarrow> func \<Rightarrow> command" where
  "toCommand parameterize f =
     \<lparr>name = name f, label = label f, action = escape (action f),
      slug = parameterize (label f)\<rparr>"

text \<open>The record \<open>getDevices\<close> stores for a device of the catalog.\<close>

definition indexDevice :: "(string \<Rightarrow> string) \<Rightarrow> raw_device \<Rightarrow> device" where
  "indexDevice parameterize d =
     \<lparr>device_id = device_id d, device_label = device_label d,
      device_controlGroup = device_controlGroup d,
      device_slug = parameterize (device_label d),
      device_commands = getCommandsFromControlGroup parameterize (device_controlGroup d)\<rparr>"

text \<open>A promise nobody handles has rejected: on the returned one or on a dropped one.\<close>

definition unhandled_rejections :: "result \<Rightarrow> error list" where
  "unhandled_rejections r =
     concat (map (\<lambda>p. case p of Rejected e \<Rightarrow> [e] | Fulfilled v \<Rightarrow> [] | Pending \<Rightarrow> [])
               (settled r # detached r))"

text \<open>
  The activity ids and labels the host knows: the keys of \<open>this.activities\<close> and the
  labels of its records.
\<close>

definition known_activity_ids :: "host \<Rightarrow> string set" where
  "known_activity_ids this =
     (case this_activities this of None \<Rightarrow> {} | Some acts \<Rightarrow> fst ` set acts)"

definition known_activity_labels :: "host \<Rightarrow> string set" where
  "known_activity_labels this =
     (case this_activities this of
        None \<Rightarrow> {}
      | Some acts \<Rightarrow> (\<lambda>kv. activity_label (snd kv)) ` set acts)"

text \<open>A request that is dropped: nothing is sent and the host is as before.\<close>

definition dropped :: "host \<Rightarrow> result" where
  "dropped this = \<lparr>settled = Fulfilled Undefined, detached = [], calls = [], after = this\<rparr>"

text \<open>
  The function entry the device index keeps under a slug: of the entries with that slug,
  the one the loops visit last.
\<close>

definition slug_owner :: "(string \<Rightarrow> string) \<Rightarrow> group list \<Rightarrow> string \<Rightarrow> func option" where
  "slug_owner parameterize controlGroup s =
     find (\<lambda>g. parameterize (label g) = s) (rev (catalog_funcs controlGroup))"

text \<open>
  Catalogs that assign no entry under the key \<open>__proto__\<close>: no function slug of a
  device, and no id and no slug of a device.
\<close>

definition plain_device :: "(string \<Rightarrow> string) \<Rightarrow> raw_device \<Rightarrow> bool" where
  "plain_device parameterize d =
     list_all (\<lambda>f. parameterize (label f) \<noteq> ''__proto__'')
       (catalog_funcs (device_controlGroup d))"

definition plain_catalog :: "(string \<Rightarrow> string) \<Rightarrow> raw_device list \<Rightarrow> bool" where
  "plain_catalog parameterize catalog =
     list_all (\<lambda>d. device_id d \<noteq> ''__proto__''
                 \<and> parameterize (device_label d) \<noteq> ''__proto__''
                 \<and> plain_device parameterize d) catalog"

section \<open>A sample hub\<close>

text \<open>
  A stand-in for the package \<open>parameterize\<close> on plain labels: ASCII letters are
  lower-cased, letters and digits are kept, every other character becomes a hyphen.
\<close>

definition slugify :: "string \<Rightarrow> string" where
  "slugify s =
     map (\<lambda>c. let n = (of_char c :: int) in
               if 65 \<le> n \<and> n \<le> 90 then char_of (n + 32)
               else if (97 \<le> n \<and> n \<le> 122) \<or> (48 \<le> n \<and> n \<le> 57) then c
               else CHR ''-'') s"

text \<open>
  A stand-in for the key \<open>Number(s)\<close> reads, on texts without a sign, a point, an
  exponent or blanks: a non-empty digit string reads its numeral without leading zeros,
  any other text reads \<open>NaN\<close>.
\<close>

definition decimalKey :: "string \<Rightarrow> string" where
  "decimalKey s =
     (if s \<noteq> [] \<and> list_all is_digit s
      then (case dropWhile (\<lambda>c. c = CHR ''0'') s of [] \<Rightarrow> ''0'' | c # cs \<Rightarrow> c # cs)
      else ''NaN'')"

definition volume_up :: func where
  "volume_up = \<lparr>name = ''VolumeUp'', label = ''Volume Up'',
                 action = ''command:VolumeUp,type:IRCommand,deviceId:42''\<rparr>"

definition power_toggle :: func where
  "power_toggle = \<lparr>name = ''PowerToggle'', label = ''Power Toggle'',
                    action = ''command:PowerToggle,type:IRCommand,deviceId:42''\<rparr>"

definition tv :: raw_device where
  "tv = \<lparr>device_id = ''42'', device_label = ''TV'',
          device_controlGroup = [\<lparr>group_function = [power_toggle]\<rparr>,
                                 \<lparr>group_function = [volume_up]\<rparr>]\<rparr>"

definition power_off :: activity where
  "power_off = \<lparr>activity_id = ''-1'', activity_label = ''PowerOff'',
                 activity_controlGroup = []\<rparr>"

definition watch_tv :: activity where
  "watch_tv = \<lparr>activity_id = ''20'', activity_label = ''Watch TV'',
                activity_controlGroup = [\<lparr>group_function = [volume_up]\<rparr>]\<rparr>"

text \<open>The host after \<open>connect\<close> and a first pass of \<open>poll\<close>, watching TV.\<close>

definition sample_state :: state where
  "sample_state =
     \<lparr>isOff = Some False, currentActivity = Some ''20'', startingActivity = None,
      commands = Some [(''VolumeUp'', volume_up)],
      availableCommands = Some [tv],
      activities = Some (getActivities [power_off, watch_tv]),
      devices = Some (fst (getDevices slugify [tv]))\<rparr>"

definition sample_host :: host where
  "sample_host =
     \<lparr>this_activities = Some (getActivities [power_off, watch_tv]),
      this_devices = Some (fst (getDevices slugify [tv])),
      this_deviceSlugs = Some (snd (getDevices slugify [tv])),
      this_state = sample_state\<rparr>"

text \<open>The same host while a switch to the activity \<open>20\<close> is under way.\<close>

definition starting_host :: host where
  "starting_host =
     sample_host\<lparr>this_state := sample_state\<lparr>currentActivity := Some ''-1'',
       isOff := Some True, startingActivity := Some ''20'', commands := Some []\<rparr>\<rparr>"

text \<open>A hub that answers every call, and hubs that fail one call.\<close>

definition hub_ok :: hub where
  "hub_ok = \<lparr>getCurrentActivity_reply = Inr ''20'', isOff_reply = Inr False,
              startActivity_reply = Inr (), press_reply = Inr (), release_reply = Inr ()\<rparr>"

definition hub_isOff_fails :: hub where
  "hub_isOff_fails = hub_ok\<lparr>isOff_reply := Inl HubFault\<rparr>"

definition hub_poll_fails :: hub where
  "hub_poll_fails = hub_ok\<lparr>getCurrentActivity_reply := Inl HubFault\<rparr>"

definition hub_send_fails :: hub where
  "hub_send_fails = hub_ok\<lparr>press_reply := Inl HubFault\<rparr>"

text \<open>A hub that reports an activity the catalog fetched at connect time does not hold.\<close>

definition hub_unknown_activity :: hub where
  "hub_unknown_activity = hub_ok\<lparr>getCurrentActivity_reply := Inr ''30''\<rparr>"

text \<open>
  The host of \<open>starting_host\<close> after a pass that fetched the activity \<open>30\<close> and
  \<open>isOff = false\<close> and then failed in \<open>getCommands\<close>.
\<close>

definition committed_host :: host where
  "committed_host =
     starting_host\<lparr>this_state := (this_state starting_host)\<lparr>isOff := Some False,
       currentActivity := Some ''30''\<rparr>\<rparr>"

text \<open>
  The host with everything off and no switch under way, and the same host after a pass of
  the newer revision's \<open>poll\<close> that fetched the activity \<open>20\<close>.
\<close>

definition off_host :: host where
  "off_host =
     sample_host\<lparr>this_state := sample_state\<lparr>currentActivity := Some ''-1'',
       isOff := Some True, commands := Some []\<rparr>\<rparr>"

definition stale_host :: host where
  "stale_host =
     off_host\<lparr>this_state := (this_state off_host)\<lparr>isOff := Some False,
       currentActivity := Some ''20''\<rparr>\<rparr>"

text \<open>What the first half of \<open>startActivity\<close> does to the host for the activity \<open>20\<close>.\<close>

definition request_20 :: "host \<Rightarrow> host" where
  "request_20 = set_state (\<lambda>s. s\<lparr>startingActivity := Some ''20''\<rparr>)"

text \<open>A hub that is still off, and a hub that fails to start an activity.\<close>

definition hub_still_off :: hub where
  "hub_still_off = hub_ok\<lparr>getCurrentActivity_reply := Inr ''-1'', isOff_reply := Inr True\<rparr>"

definition hub_start_fails :: hub where
  "hub_start_fails = hub_ok\<lparr>startActivity_reply := Inl HubFault\<rparr>"

text \<open>
  A device with two function entries, in different groups, whose labels give the same
  slug.
\<close>

definition input_hdmi1 :: func where
  "input_hdmi1 = \<lparr>name = ''InputHdmi1'', label = ''Input HDMI 1'',
                   action = ''command:InputHdmi1,type:IRCommand,deviceId:43''\<rparr>"

definition input_hdmi_1 :: func where
  "input_hdmi_1 = \<lparr>name = ''InputHdmi 1'', label = ''Input Hdmi-1'',
                    action = ''command:InputHdmi 1,type:IRCommand,deviceId:43''\<rparr>"

definition receiver :: raw_device where
  "receiver = \<lparr>device_id = ''43'', device_label = ''Receiver'',
                device_controlGroup = [\<lparr>group_function = [input_hdmi1]\<rparr>,
                                       \<lparr>group_function = [input_hdmi_1]\<rparr>]\<rparr>"

text \<open>The record the device index holds for the sample device.\<close>

definition tv_indexed :: device where
  "tv_indexed = indexDevice slugify tv"

section \<open>Properties\<close>

subsection \<open>Escaping\<close>

lemma no_unescaped_colon_Cons:
  "c \<noteq> CHR '':'' \<Longrightarrow> no_unescaped_colon (c # s) = no_unescaped_colon s"
  by (cases s) auto

lemma no_unescaped_colon_escape: "no_unescaped_colon (escape s)"
  by (induction s) (auto simp: no_unescaped_colon_Cons)

subsection \<open>Reads of properties\<close>

lemma getProperty_Own: "getProperty obj k = Own v \<longleftrightarrow> map_of obj k = Some v"
  by (simp add: getProperty_def split: option.splits)

lemma getProperty_plain:
  "k \<notin> set objectPrototypeKeys \<Longrightarrow>
     getProperty obj k = (case map_of obj k of Some v \<Rightarrow> Own v | None \<Rightarrow> Absent)"
  by (simp add: getProperty_def split: option.splits)

lemma getProperty_Absent:
  "getProperty obj k = Absent \<longleftrightarrow> map_of obj k = None \<and> k \<notin> set objectPrototypeKeys"
  by (simp add: getProperty_def split: option.splits)

subsection \<open>Folds of property assignments\<close>

lemma foldl_groups:
  "foldl (\<lambda>acc grp. foldl step acc (group_function grp)) acc0 controlGroup
     = foldl step acc0 (catalog_funcs controlGroup)"
  by (induction controlGroup arbitrary: acc0) (simp_all add: catalog_funcs_def)

lemma map_of_foldl_update:
  "map_of (foldl (\<lambda>m x. AList.update (k x) (v x) m) m0 xs) key =
     (case filter (\<lambda>x. k x = key) xs of
        [] \<Rightarrow> map_of m0 key
      | y # ys \<Rightarrow> Some (v (last (y # ys))))"
proof (induction xs rule: rev_induct)
  case Nil
  then show ?case by simp
next
  case (snoc x xs)
  then show ?case
    by (auto simp: update_conv' split: list.splits)
qed

lemma map_of_foldl_update_Some:
  assumes "map_of (foldl (\<lambda>m x. AList.update (k x) (v x) m) [] xs) key = Some val"
  shows "\<exists>x \<in> set xs. k x = key \<and> v x = val"
proof -
  let ?ys = "filter (\<lambda>x. k x = key) xs"
  from assms have ne: "?ys \<noteq> []" and val: "val = v (last ?ys)"
    by (auto simp: map_of_foldl_update split: list.splits)
  from ne have "last ?ys \<in> set ?ys" by (rule last_in_set)
  then have "last ?ys \<in> set xs \<and> k (last ?ys) = key" by simp
  with val show ?thesis by blast
qed

lemma last_filter_find_rev:
  "(case filter p xs of [] \<Rightarrow> None | y # ys \<Rightarrow> Some (last (y # ys))) = find p (rev xs)"
  by (induction xs rule: rev_induct) (auto split: list.splits)

lemma map_of_foldl_update_find:
  "map_of (foldl (\<lambda>m x. AList.update (k x) (v x) m) [] xs) key
     = map_option v (find (\<lambda>x. k x = key) (rev xs))"
proof -
  have "map_of (foldl (\<lambda>m x. AList.update (k x) (v x) m) [] xs) key
          = map_option v (case filter (\<lambda>x. k x = key) xs of
                             [] \<Rightarrow> None | y # ys \<Rightarrow> Some (last (y # ys)))"
    by (simp add: map_of_foldl_update split: list.splits)
  then show ?thesis by (simp only: last_filter_find_rev)
qed

lemma distinct_foldl_update:
  "distinct (map fst m0) \<Longrightarrow>
     distinct (map fst (foldl (\<lambda>m x. AList.update (k x) (v x) m) m0 xs))"
  by (induction xs rule: rev_induct) (simp_all add: distinct_update)

lemma set_ownEntries: "set (ownEntries obj) = set obj"
  by (auto simp: ownEntries_def)

lemma find_Some_set: "find P xs = Some x \<Longrightarrow> x \<in> set xs \<and> P x"
  by (induction xs) (auto split: if_splits)

lemma find_ownEntries_None:
  "find P (ownEntries obj) = None \<longleftrightarrow> (\<forall>kv \<in> set obj. \<not> P kv)"
  by (auto simp: find_None_iff set_ownEntries)

lemma find_ownEntries_Some:
  assumes "find P (ownEntries obj) = Some kv"
  shows "kv \<in> set obj \<and> P kv"
proof -
  from assms have "kv \<in> set (ownEntries obj) \<and> P kv" by (rule find_Some_set)
  then show ?thesis by (simp add: set_ownEntries)
qed

lemma pressRelease_calls:
  "c \<in> set (snd (pressRelease t h)) \<Longrightarrow> sent_token c t"
  by (auto simp: pressRelease_def sent_token_def split: sum.splits)

subsection \<open>What the built indices hold\<close>

lemma getCommandsFromControlGroup_fold:
  "getCommandsFromControlGroup P cg =
     foldl (\<lambda>m f. AList.update (P (label f)) (toCommand P f) m) [] (catalog_funcs cg)"
  by (simp add: getCommandsFromControlGroup_def foldl_groups toCommand_def)

lemma distinct_getCommandsFromControlGroup:
  "distinct (map fst (getCommandsFromControlGroup P cg))"
  unfolding getCommandsFromControlGroup_fold by (rule distinct_foldl_update) simp

lemma map_of_getCommandsFromControlGroup:
  "map_of (getCommandsFromControlGroup P cg) s = map_option (toCommand P) (slug_owner P cg s)"
  by (simp add: getCommandsFromControlGroup_fold map_of_foldl_update_find slug_owner_def)

lemma slug_owner_Some:
  assumes "slug_owner P cg s = Some g"
  shows "g \<in> set (catalog_funcs cg) \<and> P (label g) = s"
  using find_Some_set[OF assms[unfolded slug_owner_def]] by simp

lemma slug_owner_exists:
  assumes "f \<in> set (catalog_funcs cg)"
  shows "\<exists>g. slug_owner P cg (P (label f)) = Some g"
proof (cases "slug_owner P cg (P (label f))")
  case None
  with assms show ?thesis by (auto simp: slug_owner_def find_None_iff)
next
  case (Some g)
  then show ?thesis by blast
qed

lemma set_getCommandsFromControlGroup:
  "kv \<in> set (getCommandsFromControlGroup P cg) \<longleftrightarrow>
     (\<exists>g. slug_owner P cg (fst kv) = Some g \<and> snd kv = toCommand P g)"
proof -
  have "kv \<in> set (getCommandsFromControlGroup P cg) \<longleftrightarrow>
          map_of (getCommandsFromControlGroup P cg) (fst kv) = Some (snd kv)"
    using distinct_getCommandsFromControlGroup[of P cg]
    by (cases kv) simp
  then show ?thesis
    by (auto simp: map_of_getCommandsFromControlGroup)
qed

lemma getCommands_Some:
  assumes "getCommands this = Inr cmds" and "map_of cmds n = Some f"
  shows "\<exists>acts a. activities (this_state this) = Some acts
           \<and> map_of acts (propertyKey (currentActivity (this_state this))) = Some a
           \<and> f \<in> set (catalog_funcs (activity_controlGroup a)) \<and> name f = n"
proof -
  from assms(1) obtain acts a where
    acts: "activities (this_state this) = Some acts" and
    a: "map_of acts (propertyKey (currentActivity (this_state this))) = Some a" and
    cmds: "cmds = foldl (\<lambda>m f. AList.update (name f) f m) [] (catalog_funcs (activity_controlGroup a))"
    by (auto simp: getCommands_def foldl_groups split: option.splits)
  from assms(2) have "\<exists>x \<in> set (catalog_funcs (activity_controlGroup a)). name x = n \<and> x = f"
    unfolding cmds by (rule map_of_foldl_update_Some)
  with acts a show ?thesis by blast
qed

lemma getDevices_fold:
  "getDevices P catalog =
     (foldl (\<lambda>m d. AList.update (device_id d) (indexDevice P d) m) [] catalog,
      foldl (\<lambda>m d. AList.update (P (device_label d)) (indexDevice P d) m) [] catalog)"
proof (induction catalog rule: rev_induct)
  case Nil
  then show ?case by (simp add: getDevices_def)
next
  case (snoc d ds)
  then show ?case
    by (simp add: getDevices_def indexDevice_def Let_def)
qed

lemma deviceSlugs_Some:
  "map_of (snd (getDevices P catalog)) k = Some dev \<Longrightarrow>
     \<exists>d \<in> set catalog. P (device_label d) = k \<and> dev = indexDevice P d"
  unfolding getDevices_fold snd_conv
  by (drule map_of_foldl_update_Some) auto

subsection \<open>What \<open>findAction\<close> returns\<close>

lemma findAction_ActionString:
  assumes "findAction (Own dev) s = Inr (ActionString a)"
  shows "\<exists>kv \<in> set (device_commands dev). a = action (snd kv)"
proof (cases "getProperty (device_commands dev) s")
  case (Own c)
  with assms have "a = action c" by (simp add: findAction_def)
  moreover from Own have "(s, c) \<in> set (device_commands dev)"
    by (simp add: getProperty_Own map_of_SomeD)
  ultimately show ?thesis by force
next
  case Inherited
  with assms show ?thesis by (simp add: findAction_def)
next
  case Absent
  with assms obtain kv where
    kv: "find (\<lambda>kv. name (snd kv) = s) (ownEntries (device_commands dev)) = Some kv"
    and a: "a = action (snd kv)"
    by (auto simp: findAction_def split: option.splits)
  from find_ownEntries_Some[OF kv] a show ?thesis by blast
qed

subsection \<open>C3: action tokens reach the hub escaped exactly once\<close>

text \<open>
  C3. Every action token in a hold-action send is the catalog's raw action with each colon
  doubled once, and so has no unescaped colon. On the activity path the command map holds
  the activity's function entries as the hub delivered them (\<open>getCommands\<close>) and
  \<open>command\<close> escapes; on the device path the index holds the escaped action
  (\<open>getCommandsFromControlGroup\<close>) and \<open>deviceCommand\<close> sends it as stored. Where the
  device path finds no action, what is sent in the token's place is the word \<open>null\<close>,
  or the word \<open>undefined\<close> when the command is the name of an inherited member; neither
  holds a colon.
\<close>

theorem hold_action_tokens_escaped:
  assumes "getCommands this0 = Inr cmds"
      and "commands (this_state this) = Some cmds"
      and "this_deviceSlugs this = Some (snd (getDevices parameterize catalog))"
      and "''__proto__'' \<notin> fst ` set cmds"
      and "plain_catalog parameterize catalog"
  shows "(\<forall>c \<in> set (calls (command this cmd h)).
            \<exists>acts a f. activities (this_state this0) = Some acts
              \<and> map_of acts (propertyKey (currentActivity (this_state this0))) = Some a
              \<and> f \<in> set (catalog_funcs (activity_controlGroup a))
              \<and> sent_token c (escape (action f)))
       \<and> (\<forall>c \<in> set (calls (deviceCommand this deviceSlug cmd h)).
            sent_token c ''null'' \<or> sent_token c ''undefined''
            \<or> (\<exists>d \<in> set catalog. \<exists>f \<in> set (catalog_funcs (device_controlGroup d)).
                  sent_token c (escape (action f))))
       \<and> no_unescaped_colon ''null''
       \<and> no_unescaped_colon ''undefined''
       \<and> (\<forall>raw. no_unescaped_colon (escape raw))"
proof (intro conjI ballI allI)
  fix c assume c: "c \<in> set (calls (command this cmd h))"
  then obtain ctl where ctl: "map_of cmds cmd = Some ctl"
    and sent: "c \<in> set (snd (pressRelease (escape (action ctl)) h))"
    using assms(2)
    by (auto simp: command_def Let_def getProperty_Own split: property.splits)
  from getCommands_Some[OF assms(1) ctl] sent
  show "\<exists>acts a f. activities (this_state this0) = Some acts
              \<and> map_of acts (propertyKey (currentActivity (this_state this0))) = Some a
              \<and> f \<in> set (catalog_funcs (activity_controlGroup a))
              \<and> sent_token c (escape (action f))"
    by (blast dest: pressRelease_calls)
next
  fix c assume c: "c \<in> set (calls (deviceCommand this deviceSlug cmd h))"
  let ?slugs = "snd (getDevices parameterize catalog)"
  let ?dev = "getProperty ?slugs (propertyKey deviceSlug)"
  from c assms(3) obtain act where act: "findAction ?dev cmd = Inr act"
    and sent: "sent_token c (actionText act)"
    by (auto simp: deviceCommand_def resolveDevice_def Let_def split: sum.splits
             dest: pressRelease_calls)
  show "sent_token c ''null'' \<or> sent_token c ''undefined''
            \<or> (\<exists>d \<in> set catalog. \<exists>f \<in> set (catalog_funcs (device_controlGroup d)).
                  sent_token c (escape (action f)))"
  proof (cases act)
    case ActionNull
    with sent show ?thesis by (simp add: actionText_def)
  next
    case ActionUndefined
    with sent show ?thesis by (simp add: actionText_def)
  next
    case (ActionString a)
    with act obtain dev where dev: "?dev = Own dev"
      by (cases ?dev) (simp_all add: findAction_def)
    then have "map_of ?slugs (propertyKey deviceSlug) = Some dev"
      by (simp add: getProperty_Own)
    from deviceSlugs_Some[OF this] obtain d where
      d: "d \<in> set catalog" and dev_eq: "dev = indexDevice parameterize d" by blast
    from act ActionString dev obtain kv where kv: "kv \<in> set (device_commands dev)"
      and a: "a = action (snd kv)"
      by (auto dest: findAction_ActionString)
    from kv dev_eq have "kv \<in> set (getCommandsFromControlGroup parameterize (device_controlGroup d))"
      by (simp add: indexDevice_def)
    then obtain f where f: "f \<in> set (catalog_funcs (device_controlGroup d))"
      and kvf: "snd kv = toCommand parameterize f"
      by (auto simp: set_getCommandsFromControlGroup dest: slug_owner_Some)
    from sent ActionString a kvf have "sent_token c (escape (action f))"
      by (simp add: actionText_def toCommand_def)
    with d f show ?thesis by blast
  qed
next
  show "no_unescaped_colon ''null''" by simp
next
  show "no_unescaped_colon ''undefined''" by simp
next
  fix raw show "no_unescaped_colon (escape raw)"
    by (rule no_unescaped_colon_escape)
qed

theorem hold_action_tokens_escaped_witness:
  "getCommands sample_host = Inr [(''VolumeUp'', volume_up)]
   \<and> commands (this_state sample_host) = Some [(''VolumeUp'', volume_up)]
   \<and> this_deviceSlugs sample_host = Some (snd (getDevices slugify [tv]))
   \<and> ''__proto__'' \<notin> fst ` set [(''VolumeUp'', volume_up)]
   \<and> plain_catalog slugify [tv]
   \<and> holdAction ''command::VolumeUp,type::IRCommand,deviceId::42'' ''press''
         \<in> set (calls (command sample_host ''VolumeUp'' hub_ok))
   \<and> (\<exists>acts a f. activities (this_state sample_host) = Some acts
         \<and> map_of acts (propertyKey (currentActivity (this_state sample_host))) = Some a
         \<and> f \<in> set (catalog_funcs (activity_controlGroup a))
         \<and> sent_token (holdAction ''command::VolumeUp,type::IRCommand,deviceId::42'' ''press'')
              (escape (action f)))
   \<and> holdAction ''command::PowerToggle,type::IRCommand,deviceId::42'' ''release''
         \<in> set (calls (deviceCommand sample_host (Some ''tv'') ''power-toggle'' hub_ok))
   \<and> (sent_token (holdAction ''command::PowerToggle,type::IRCommand,deviceId::42'' ''release'')
         ''null''
       \<or> sent_token (holdAction ''command::PowerToggle,type::IRCommand,deviceId::42'' ''release'')
         ''undefined''
       \<or> (\<exists>d \<in> set [tv]. \<exists>f \<in> set (catalog_funcs (device_controlGroup d)).
             sent_token
               (holdAction ''command::PowerToggle,type::IRCommand,deviceId::42'' ''release'')
               (escape (action f))))
   \<and> holdAction ''undefined'' ''press''
         \<in> set (calls (deviceCommand sample_host (Some ''tv'') ''constructor'' hub_ok))"
proof -
  have h1: "getCommands sample_host = Inr [(''VolumeUp'', volume_up)]" by code_simp
  have h2: "commands (this_state sample_host) = Some [(''VolumeUp'', volume_up)]" by code_simp
  have h3: "this_deviceSlugs sample_host = Some (snd (getDevices slugify [tv]))"
    by (simp add: sample_host_def)
  have h4: "holdAction ''command::VolumeUp,type::IRCommand,deviceId::42'' ''press''
              \<in> set (calls (command sample_host ''VolumeUp'' hub_ok))"
    by code_simp
  have h5: "holdAction ''command::PowerToggle,type::IRCommand,deviceId::42'' ''release''
              \<in> set (calls (deviceCommand sample_host (Some ''tv'') ''power-toggle'' hub_ok))"
    by code_simp
  have h6: "''__proto__'' \<notin> fst ` set [(''VolumeUp'', volume_up)]" by simp
  have h7: "plain_catalog slugify [tv]" by code_simp
  have h8: "holdAction ''undefined'' ''press''
         \<in> set (calls (deviceCommand sample_host (Some ''tv'') ''constructor'' hub_ok))"
    by code_simp
  from hold_action_tokens_escaped [OF h1 h2 h3 h6 h7, where cmd = "''VolumeUp''" and h = hub_ok]
    hold_action_tokens_escaped [OF h1 h2 h3 h6 h7, where cmd = "''power-toggle''" and h = hub_ok
      and deviceSlug = "Some ''tv''"]
  show ?thesis using h1 h2 h3 h4 h5 h6 h7 h8 by blast
qed

subsection \<open>The poll loop never leaves its body\<close>

lemma poll_iteration_returns: "\<exists>it. poll_iteration this h = Inr it"
  by (simp add: poll_iteration_def Let_def split: sum.splits)

lemma poll_returns: "\<exists>this'. poll this hs = Inr this'"
proof (induction hs arbitrary: this)
  case Nil
  then show ?case by simp
next
  case (Cons h hs)
  obtain it where "poll_iteration this h = Inr it"
    using poll_iteration_returns by blast
  with Cons.IH[of "this_after it"] show ?case by simp
qed

subsection \<open>A pass and the handlers that run during it\<close>

lemma poll_iteration_is_interleaved:
  "poll_iteration this h = poll_iteration_interleaved this h (\<lambda>x. x) (\<lambda>x. x)"
  unfolding poll_iteration_def poll_iteration_interleaved_def Let_def
  by (simp split: sum.splits)

text \<open>
  Whatever the handlers do, a pass whose two fetches succeed stores the value it computed
  from the \<open>startingActivity\<close> it read at its start; a pass with a failed fetch
  stores nothing, and the handlers' work stands.
\<close>

lemma poll_iteration_interleaved_startingActivity:
  "\<exists>it. poll_iteration_interleaved this h during_fetch during_isOff = Inr it
      \<and> startingActivity (this_state (this_after it)) =
          (case getCurrentActivity_reply h of
             Inl e \<Rightarrow> startingActivity (this_state (during_fetch this))
           | Inr polled \<Rightarrow>
               (case isOff_reply h of
                  Inl e \<Rightarrow> startingActivity (this_state (during_isOff (during_fetch this)))
                | Inr off \<Rightarrow>
                    if startingActivity (this_state this) = Some polled then None
                    else startingActivity (this_state this)))"
  by (simp add: poll_iteration_interleaved_def set_state_def Let_def split: sum.splits)

text \<open>
  So a request that \<open>startActivity\<close> records while the pass awaits the hub is
  overwritten by the pass: here the hub is still off, the handler has set
  \<open>startingActivity\<close> to \<open>20\<close>, and the pass puts \<open>null\<close> back.
\<close>

lemma poll_drops_concurrent_request:
  "startingActivity (this_state off_host) = None
   \<and> startingActivity (this_state (request_20 off_host)) = Some ''20''
   \<and> getCurrentActivity_reply hub_still_off = Inr ''-1''
   \<and> (\<exists>it. poll_iteration_interleaved off_host hub_still_off request_20 (\<lambda>x. x) = Inr it
         \<and> startingActivity (this_state (this_after it)) = None)"
proof -
  have h1: "startingActivity (this_state off_host) = None" by code_simp
  have h2: "startingActivity (this_state (request_20 off_host)) = Some ''20''" by code_simp
  have h3: "getCurrentActivity_reply hub_still_off = Inr ''-1''" by code_simp
  have h4: "isOff_reply hub_still_off = Inr True" by code_simp
  from poll_iteration_interleaved_startingActivity
         [of off_host hub_still_off request_20 "\<lambda>x. x"]
  have "\<exists>it. poll_iteration_interleaved off_host hub_still_off request_20 (\<lambda>x. x) = Inr it
         \<and> startingActivity (this_state (this_after it)) = None"
    by (simp add: h1 h3 h4)
  with h1 h2 h3 show ?thesis by blast
qed

subsection \<open>C1: when a pass of the poll loop clears \<open>startingActivity\<close>\<close>




subsection \<open>C2: what a failed pass leaves behind\<close>

text \<open>
  C2, as amended. In \<open>src/index.js\<close> a pass in which fetching the current activity or
  fetching \<open>isOff\<close> throws leaves the whole host as it was; a pass in which
  \<open>getCommands\<close> throws has already stored the polled \<open>currentActivity\<close> and
  \<open>isOff\<close>, and keeps only \<open>commands\<close>. In each case the exception is caught and the
  loop goes on to the next pass. In the older revision the fetch of the current activity
  stands outside the \<open>try\<close>: its exception ends the loop, and it is the only one that
  does.

  The claim as stated fails where \<open>getCommands\<close> throws, here because the hub reports an
  activity that the catalog fetched at connect time does not hold.
\<close>

theorem failed_tick_state:
  "(\<exists>it. poll_iteration this h = Inr it
      \<and> (case getCurrentActivity_reply h of
            Inl e \<Rightarrow> this_after it = this \<and> caught it = Some e
          | Inr polled \<Rightarrow>
              (case isOff_reply h of
                 Inl e \<Rightarrow> this_after it = this \<and> caught it = Some e
               | Inr off \<Rightarrow>
                   currentActivity (this_state (this_after it)) = Some polled
                   \<and> isOff (this_state (this_after it)) = Some off
                   \<and> (case caught it of
                         None \<Rightarrow> True
                       | Some e \<Rightarrow>
                           getCommands_called it \<and> getCommands (this_after it) = Inl e
                           \<and> commands (this_state (this_after it))
                               = commands (this_state this)))))
   \<and> (\<exists>this'. poll this hs = Inr this')
   \<and> (poll_iteration_part000 this h = Inl e) =
       (falsy (startingActivity (this_state this)) \<and> getCurrentActivity_reply h = Inl e)"
proof (intro conjI)
  show "\<exists>this'. poll this hs = Inr this'" by (rule poll_returns)
next
  show "(poll_iteration_part000 this h = Inl e) =
       (falsy (startingActivity (this_state this)) \<and> getCurrentActivity_reply h = Inl e)"
    by (auto simp: poll_iteration_part000_def falsy_def Let_def split: sum.splits option.splits)
next
  show "\<exists>it. poll_iteration this h = Inr it
      \<and> (case getCurrentActivity_reply h of
            Inl e \<Rightarrow> this_after it = this \<and> caught it = Some e
          | Inr polled \<Rightarrow>
              (case isOff_reply h of
                 Inl e \<Rightarrow> this_after it = this \<and> caught it = Some e
               | Inr off \<Rightarrow>
                   currentActivity (this_state (this_after it)) = Some polled
                   \<and> isOff (this_state (this_after it)) = Some off
                   \<and> (case caught it of
                         None \<Rightarrow> True
                       | Some e \<Rightarrow>
                           getCommands_called it \<and> getCommands (this_after it) = Inl e
                           \<and> commands (this_state (this_after it))
                               = commands (this_state this))))"
    by (auto simp: poll_iteration_def set_state_def Let_def split: sum.splits)
qed

theorem failed_tick_state_witness:
  "getCurrentActivity_reply hub_poll_fails = Inl HubFault
   \<and> (\<exists>it. poll_iteration starting_host hub_poll_fails = Inr it
         \<and> this_after it = starting_host \<and> caught it = Some HubFault)
   \<and> getCurrentActivity_reply hub_unknown_activity = Inr ''30''
   \<and> isOff_reply hub_unknown_activity = Inr False
   \<and> (\<exists>it. poll_iteration starting_host hub_unknown_activity = Inr it
         \<and> currentActivity (this_state (this_after it)) = Some ''30''
         \<and> isOff (this_state (this_after it)) = Some False)
   \<and> (\<exists>this'. poll starting_host [hub_poll_fails, hub_unknown_activity, hub_ok] = Inr this')
   \<and> falsy (startingActivity (this_state sample_host))
   \<and> poll_iteration_part000 sample_host hub_poll_fails = Inl HubFault"
proof -
  have h1: "getCurrentActivity_reply hub_poll_fails = Inl HubFault" by code_simp
  have h2: "getCurrentActivity_reply hub_unknown_activity = Inr ''30''" by code_simp
  have h3: "isOff_reply hub_unknown_activity = Inr False" by code_simp
  have h4: "falsy (startingActivity (this_state sample_host))" by code_simp
  from failed_tick_state [of starting_host hub_poll_fails]
  have a: "\<exists>it. poll_iteration starting_host hub_poll_fails = Inr it
         \<and> this_after it = starting_host \<and> caught it = Some HubFault"
    by (simp add: h1)
  from failed_tick_state [of starting_host hub_unknown_activity]
  have b: "\<exists>it. poll_iteration starting_host hub_unknown_activity = Inr it
         \<and> currentActivity (this_state (this_after it)) = Some ''30''
         \<and> isOff (this_state (this_after it)) = Some False"
    by (auto simp: h2 h3)
  from failed_tick_state [of starting_host hub_ok "[hub_poll_fails, hub_unknown_activity, hub_ok]"]
  have c: "\<exists>this'. poll starting_host [hub_poll_fails, hub_unknown_activity, hub_ok] = Inr this'"
    by blast
  from failed_tick_state [of sample_host hub_poll_fails "[]" HubFault]
  have d: "poll_iteration_part000 sample_host hub_poll_fails = Inl HubFault"
    by (simp add: h1 h4)
  from a b c d h1 h2 h3 h4 show ?thesis by blast
qed

theorem failed_tick_state_counterexample:
  "poll_iteration starting_host hub_unknown_activity =
     Inr \<lparr>this_after = committed_host, getCommands_called = True, caught = Some TypeError\<rparr>
   \<and> currentActivity (this_state starting_host) = Some ''-1''
   \<and> currentActivity (this_state committed_host) = Some ''30''
   \<and> isOff (this_state starting_host) = Some True
   \<and> isOff (this_state committed_host) = Some False"
  by code_simp

subsection \<open>What a pass does to the command map\<close>

lemma getCommands_commands_update:
  "getCommands (x\<lparr>this_state := s\<lparr>commands := c\<rparr>\<rparr>) = getCommands (x\<lparr>this_state := s\<rparr>)"
  by (simp add: getCommands_def split: option.splits)

lemma poll_iteration_commands:
  assumes "poll_iteration this h = Inr it"
  shows "getCommands_called it =
          (case getCurrentActivity_reply h of
             Inl e \<Rightarrow> False
           | Inr polled \<Rightarrow>
               (case isOff_reply h of
                  Inl e \<Rightarrow> False
                | Inr off \<Rightarrow> currentActivity (this_state this) \<noteq> Some polled))
      \<and> commands (this_state (this_after it)) =
          (if getCommands_called it
           then (case getCommands (this_after it) of
                   Inl e \<Rightarrow> commands (this_state this)
                 | Inr cmds \<Rightarrow> Some cmds)
           else commands (this_state this))"
  using assms
  by (auto simp: poll_iteration_def Let_def set_state_def getCommands_commands_update
           split: sum.splits if_splits)

lemma poll_iteration_part001_returns: "\<exists>it. poll_iteration_part001 this h = Inr it"
  by (simp add: poll_iteration_part001_def Let_def split: sum.splits)

lemma poll_iteration_part001_commands:
  assumes "poll_iteration_part001 this h = Inr it"
  shows "getCommands_called it =
          (case getCurrentActivity_reply h of
             Inl e \<Rightarrow> False
           | Inr polled \<Rightarrow>
               (case isOff_reply h of
                  Inl e \<Rightarrow> False
                | Inr off \<Rightarrow> startingActivity (this_state this) = Some polled))
      \<and> commands (this_state (this_after it)) =
          (if getCommands_called it
           then (case getCommands (this_after it) of
                   Inl e \<Rightarrow> commands (this_state this)
                 | Inr cmds \<Rightarrow> Some cmds)
           else commands (this_state this))"
  using assms
  by (auto simp: poll_iteration_part001_def Let_def set_state_def getCommands_commands_update
           split: sum.splits if_splits)

subsection \<open>C8: when a pass recomputes the command map\<close>

text \<open>
  C8, as amended. In \<open>src/index.js\<close> a pass calls \<open>getCommands\<close> exactly when both
  fetches succeed and the polled activity differs from the recorded
  \<open>currentActivity\<close>; the map is replaced by the result when the call returns and kept
  when it throws, and a pass that does not call it leaves the map as it was. The newer
  revision calls \<open>getCommands\<close> exactly when both fetches succeed and the polled
  activity equals \<open>startingActivity\<close>.

  The claim as stated fails in \<open>src/index.js\<close> on a pass whose \<open>isOff\<close> fetch throws
  (the polled activity differs and nothing is recomputed), and in the newer revision on a
  pass where the activity changed without a pending switch.
\<close>

theorem commands_recomputed:
  "(\<exists>it. poll_iteration this h = Inr it
      \<and> getCommands_called it =
          (case getCurrentActivity_reply h of
             Inl e \<Rightarrow> False
           | Inr polled \<Rightarrow>
               (case isOff_reply h of
                  Inl e \<Rightarrow> False
                | Inr off \<Rightarrow> currentActivity (this_state this) \<noteq> Some polled))
      \<and> commands (this_state (this_after it)) =
          (if getCommands_called it
           then (case getCommands (this_after it) of
                   Inl e \<Rightarrow> commands (this_state this)
                 | Inr cmds \<Rightarrow> Some cmds)
           else commands (this_state this)))
   \<and> (\<exists>it. poll_iteration_part001 this h = Inr it
      \<and> getCommands_called it =
          (case getCurrentActivity_reply h of
             Inl e \<Rightarrow> False
           | Inr polled \<Rightarrow>
               (case isOff_reply h of
                  Inl e \<Rightarrow> False
                | Inr off \<Rightarrow> startingActivity (this_state this) = Some polled))
      \<and> commands (this_state (this_after it)) =
          (if getCommands_called it
           then (case getCommands (this_after it) of
                   Inl e \<Rightarrow> commands (this_state this)
                 | Inr cmds \<Rightarrow> Some cmds)
           else commands (this_state this)))"
proof (rule conjI)
  obtain it where it: "poll_iteration this h = Inr it"
    using poll_iteration_returns by blast
  from poll_iteration_commands [OF it] it
  show "\<exists>it. poll_iteration this h = Inr it
      \<and> getCommands_called it =
          (case getCurrentActivity_reply h of
             Inl e \<Rightarrow> False
           | Inr polled \<Rightarrow>
               (case isOff_reply h of
                  Inl e \<Rightarrow> False
                | Inr off \<Rightarrow> currentActivity (this_state this) \<noteq> Some polled))
      \<and> commands (this_state (this_after it)) =
          (if getCommands_called it
           then (case getCommands (this_after it) of
                   Inl e \<Rightarrow> commands (this_state this)
                 | Inr cmds \<Rightarrow> Some cmds)
           else commands (this_state this))"
    by blast
next
  obtain it where it: "poll_iteration_part001 this h = Inr it"
    using poll_iteration_part001_returns by blast
  from poll_iteration_part001_commands [OF it] it
  show "\<exists>it. poll_iteration_part001 this h = Inr it
      \<and> getCommands_called it =
          (case getCurrentActivity_reply h of
             Inl e \<Rightarrow> False
           | Inr polled \<Rightarrow>
               (case isOff_reply h of
                  Inl e \<Rightarrow> False
                | Inr off \<Rightarrow> startingActivity (this_state this) = Some polled))
      \<and> commands (this_state (this_after it)) =
          (if getCommands_called it
           then (case getCommands (this_after it) of
                   Inl e \<Rightarrow> commands (this_state this)
                 | Inr cmds \<Rightarrow> Some cmds)
           else commands (this_state this))"
    by blast
qed

theorem commands_recomputed_witness:
  "getCurrentActivity_reply hub_ok = Inr ''20''
   \<and> isOff_reply hub_ok = Inr False
   \<and> currentActivity (this_state off_host) = Some ''-1''
   \<and> commands (this_state off_host) = Some []
   \<and> (\<exists>it. poll_iteration off_host hub_ok = Inr it
         \<and> getCommands_called it
         \<and> commands (this_state (this_after it)) =
             (case getCommands (this_after it) of
                Inl e \<Rightarrow> Some []
              | Inr cmds \<Rightarrow> Some cmds))"
proof -
  have h1: "getCurrentActivity_reply hub_ok = Inr ''20''" by code_simp
  have h2: "isOff_reply hub_ok = Inr False" by code_simp
  have h3: "currentActivity (this_state off_host) = Some ''-1''" by code_simp
  have h4: "commands (this_state off_host) = Some []" by code_simp
  from commands_recomputed [of off_host hub_ok]
  obtain it where it: "poll_iteration off_host hub_ok = Inr it"
    and called: "getCommands_called it =
          (case getCurrentActivity_reply hub_ok of
             Inl e \<Rightarrow> False
           | Inr polled \<Rightarrow>
               (case isOff_reply hub_ok of
                  Inl e \<Rightarrow> False
                | Inr off \<Rightarrow> currentActivity (this_state off_host) \<noteq> Some polled))"
    and cmds: "commands (this_state (this_after it)) =
          (if getCommands_called it
           then (case getCommands (this_after it) of
                   Inl e \<Rightarrow> commands (this_state off_host)
                 | Inr cmds \<Rightarrow> Some cmds)
           else commands (this_state off_host))"
    by blast
  from called have c: "getCommands_called it" by (simp add: h1 h2 h3)
  with cmds have "commands (this_state (this_after it)) =
             (case getCommands (this_after it) of
                Inl e \<Rightarrow> Some []
              | Inr cmds \<Rightarrow> Some cmds)"
    by (simp add: h4 split: sum.splits)
  with it c show ?thesis using h1 h2 h3 h4 by blast
qed

theorem commands_recomputed_counterexample:
  "getCurrentActivity_reply hub_isOff_fails = Inr ''20''
   \<and> currentActivity (this_state off_host) = Some ''-1''
   \<and> poll_iteration off_host hub_isOff_fails =
       Inr \<lparr>this_after = off_host, getCommands_called = False, caught = Some HubFault\<rparr>
   \<and> getCurrentActivity_reply hub_ok = Inr ''20''
   \<and> poll_iteration_part001 off_host hub_ok =
       Inr \<lparr>this_after = stale_host, getCommands_called = False, caught = None\<rparr>
   \<and> commands (this_state stale_host) = Some []"
  by (simp add: poll_iteration_def poll_iteration_part001_def hub_isOff_fails_def hub_ok_def
        off_host_def stale_host_def sample_host_def sample_state_def set_state_def)

subsection \<open>Topics and activity lookup\<close>

lemma endsWith_last:
  assumes "endsWith s t" and "t \<noteq> []"
  shows "last s = last t"
proof -
  from assms have le: "length t \<le> length s" and eq: "drop (length s - length t) s = t"
    by (auto simp: endsWith_def)
  from assms(2) have "0 < length t" by simp
  with le have len: "length s - length t < length s" by arith
  from len have "last (drop (length s - length t) s) = last s" by (rule last_drop)
  with eq show ?thesis by simp
qed

lemma activity_topic_not_command:
  "endsWith topic ''activity'' \<Longrightarrow> \<not> endsWith topic ''command''"
proof
  assume a: "endsWith topic ''activity''" and c: "endsWith topic ''command''"
  from endsWith_last[OF a] endsWith_last[OF c] show False by simp
qed

lemma findActivity_unknown:
  assumes "payload \<notin> known_activity_ids this" and "payload \<notin> known_activity_labels this"
      and "payload \<notin> set objectPrototypeKeys"
  shows "findActivity this payload = None"
proof (cases "this_activities this")
  case None
  then show ?thesis by (simp add: findActivity_def)
next
  case (Some acts)
  with assms have ids: "payload \<notin> fst ` set acts"
    and labels: "\<forall>kv \<in> set acts. activity_label (snd kv) \<noteq> payload"
    by (auto simp: known_activity_ids_def known_activity_labels_def)
  from ids have "map_of acts payload = None"
    by (simp add: map_of_eq_None_iff)
  with assms(3) have miss: "getProperty acts payload = Absent"
    by (simp add: getProperty_Absent)
  from labels have "find (\<lambda>kv. activity_label (snd kv) = payload) (ownEntries acts) = None"
    by (simp add: find_ownEntries_None)
  with Some miss show ?thesis by (simp add: findActivity_def)
qed

text \<open>
  An unknown activity is ignored when the payload is not the name of an inherited member:
  the request is dropped by \<open>startActivity\<close> and by the handler on every topic that
  ends in \<open>activity\<close>.
\<close>

lemma startActivity_unknown_dropped:
  assumes "payload \<notin> known_activity_ids this" and "payload \<notin> known_activity_labels this"
      and "payload \<notin> set objectPrototypeKeys"
  shows "startActivity this payload h = dropped this
       \<and> (endsWith topic ''activity'' \<longrightarrow> onMessage this topic payload h = dropped this)
       \<and> calls (dropped this) = [] \<and> after (dropped this) = this"
  using findActivity_unknown[OF assms]
  by (auto simp: startActivity_def onMessage_def dropped_def dest: activity_topic_not_command)

subsection \<open>C6: an unknown activity is ignored\<close>

text \<open>
  C6. The claim fails for a payload that names a member of \<open>Object.prototype\<close>.
  \<open>constructor\<close> is neither an id nor a label of a known activity, yet
  \<open>activities['constructor']\<close> reads the inherited member, which is truthy:
  \<open>findActivity\<close> returns the payload, and \<open>startActivity\<close> records it in
  \<open>startingActivity\<close> and calls the hub with it. Where the hub rejects the call,
  \<open>startingActivity\<close> keeps the payload. For every other payload the claim holds, as
  the lemma before this one states.
\<close>

theorem unknown_activity_inherited_key:
  "''constructor'' \<notin> known_activity_ids sample_host
   \<and> ''constructor'' \<notin> known_activity_labels sample_host
   \<and> findActivity sample_host ''constructor'' = Some ''constructor''
   \<and> calls (onMessage sample_host ''harmony/harmony-hub/set/activity'' ''constructor'' hub_ok)
       = [StartActivity ''constructor'']
   \<and> startingActivity (this_state sample_host) = None
   \<and> startingActivity
        (this_state (after (onMessage sample_host ''harmony/harmony-hub/set/activity''
                              ''constructor'' hub_start_fails)))
       = Some ''constructor''"
  by code_simp

subsection \<open>An unresolved command name\<close>

text \<open>
  When \<open>commands[command]\<close> reads nothing (the map is unset, or the name is neither a key
  of it nor the name of an inherited member), the promise \<open>command\<close> returns fulfils,
  its value is the Error object \<open>Invalid command ...\<close>, and nothing is sent.
\<close>

lemma command_unresolved_fulfils_with_error:
  assumes "(case commands (this_state this) of
              None \<Rightarrow> Absent | Some cmds \<Rightarrow> getProperty cmds cmd) = Absent"
  shows "command this cmd h =
           \<lparr>settled = Fulfilled (ErrorObject (InvalidCommand cmd)), detached = [],
            calls = [], after = this\<rparr>"
  using assms by (simp add: command_def)

text \<open>Nothing is sent either when the name is that of an inherited member.\<close>

lemma command_without_entry_sends_nothing:
  assumes "(case commands (this_state this) of
              None \<Rightarrow> Absent | Some cmds \<Rightarrow> getProperty cmds cmd) \<in> {Absent, Inherited}"
  shows "calls (command this cmd h) = [] \<and> after (command this cmd h) = this"
  using assms by (auto simp: command_def)

subsection \<open>C10: an unresolved command name fulfils with an Error\<close>

text \<open>
  C10. The claim fails for a name that names a member of \<open>Object.prototype\<close>.
  \<open>constructor\<close> is no key of the current activity's command map, yet
  \<open>commands['constructor']\<close> reads the inherited member, which is truthy: \<open>command\<close>
  passes its test, \<open>control.action\<close> is \<open>undefined\<close>, and the \<open>replace\<close> throws
  inside the \<open>async\<close> executor. The promise \<open>command\<close> returns neither fulfils nor
  rejects, and no Error object reaches the caller. For every other unresolved name the
  claim holds, as the lemma before this one states.
\<close>

theorem inherited_command_name_never_settles:
  "commands (this_state sample_host) = Some [(''VolumeUp'', volume_up)]
   \<and> ''constructor'' \<notin> fst ` set [(''VolumeUp'', volume_up)]
   \<and> getProperty [(''VolumeUp'', volume_up)] ''constructor'' = Inherited
   \<and> command sample_host ''constructor'' hub_ok =
       \<lparr>settled = Pending, detached = [Rejected TypeError], calls = [], after = sample_host\<rparr>
   \<and> settled (onMessage sample_host ''harmony/harmony-hub/set/command'' ''constructor'' hub_ok)
       = Pending"
  by code_simp

subsection \<open>Lookups in the device index\<close>

lemma map_of_device_commands:
  "map_of (device_commands (indexDevice P d)) s
     = map_option (toCommand P) (slug_owner P (device_controlGroup d) s)"
  by (simp add: indexDevice_def map_of_getCommandsFromControlGroup)

lemma set_device_commands:
  "kv \<in> set (device_commands (indexDevice P d)) \<longleftrightarrow>
     (\<exists>g. slug_owner P (device_controlGroup d) (fst kv) = Some g \<and> snd kv = toCommand P g)"
  by (simp add: indexDevice_def set_getCommandsFromControlGroup)

lemma findAction_slug_hit:
  assumes "slug_owner P (device_controlGroup d) ident = Some g"
  shows "findAction (Own (indexDevice P d)) ident = Inr (ActionString (escape (action g)))"
proof -
  from assms have "getProperty (device_commands (indexDevice P d)) ident = Own (toCommand P g)"
    by (simp add: getProperty_Own map_of_device_commands)
  then show ?thesis by (simp add: findAction_def toCommand_def)
qed

lemma findAction_slug_miss:
  assumes "slug_owner P (device_controlGroup d) ident = None"
      and "ident \<notin> set objectPrototypeKeys"
  shows "findAction (Own (indexDevice P d)) ident =
           (case find (\<lambda>kv. name (snd kv) = ident)
                   (ownEntries (device_commands (indexDevice P d))) of
              Some kv \<Rightarrow> Inr (ActionString (action (snd kv)))
            | None \<Rightarrow> Inr ActionNull)"
proof -
  from assms have "getProperty (device_commands (indexDevice P d)) ident = Absent"
    by (simp add: getProperty_Absent map_of_device_commands)
  then show ?thesis by (simp add: findAction_def)
qed

lemma findAction_name_fallback:
  assumes miss: "slug_owner P (device_controlGroup d) ident = None"
      and plain: "ident \<notin> set objectPrototypeKeys"
  shows "(\<exists>g. slug_owner P (device_controlGroup d) (P (label g)) = Some g \<and> name g = ident
            \<and> findAction (Own (indexDevice P d)) ident
                = Inr (ActionString (escape (action g))))
       \<or> ((\<forall>g. slug_owner P (device_controlGroup d) (P (label g)) = Some g \<longrightarrow> name g \<noteq> ident)
            \<and> findAction (Own (indexDevice P d)) ident = Inr ActionNull)"
proof (cases "find (\<lambda>kv. name (snd kv) = ident)
                (ownEntries (device_commands (indexDevice P d)))")
  case None
  then have none: "\<forall>kv \<in> set (device_commands (indexDevice P d)). name (snd kv) \<noteq> ident"
    by (simp add: find_ownEntries_None)
  have "\<forall>g. slug_owner P (device_controlGroup d) (P (label g)) = Some g \<longrightarrow> name g \<noteq> ident"
  proof (intro allI impI)
    fix g assume g: "slug_owner P (device_controlGroup d) (P (label g)) = Some g"
    then have "(P (label g), toCommand P g) \<in> set (device_commands (indexDevice P d))"
      by (simp add: set_device_commands)
    with none have "name (toCommand P g) \<noteq> ident" by force
    then show "name g \<noteq> ident" by (simp add: toCommand_def)
  qed
  moreover from None have "findAction (Own (indexDevice P d)) ident = Inr ActionNull"
    by (simp add: findAction_slug_miss[OF miss plain])
  ultimately show ?thesis by blast
next
  case (Some kv)
  from find_ownEntries_Some[OF Some]
  have kv: "kv \<in> set (device_commands (indexDevice P d))" and nm: "name (snd kv) = ident"
    by simp_all
  from kv obtain g where g: "slug_owner P (device_controlGroup d) (fst kv) = Some g"
    and snd: "snd kv = toCommand P g"
    by (auto simp: set_device_commands)
  from g have "P (label g) = fst kv" by (simp add: slug_owner_Some)
  with g have own: "slug_owner P (device_controlGroup d) (P (label g)) = Some g" by simp
  from nm snd have name: "name g = ident" by (simp add: toCommand_def)
  from Some snd have "findAction (Own (indexDevice P d)) ident
                = Inr (ActionString (escape (action g)))"
    by (simp add: findAction_slug_miss[OF miss plain] toCommand_def)
  with own name show ?thesis by blast
qed

subsection \<open>C7: resolving a command of a device\<close>

text \<open>
  C7, as amended. Let \<open>D\<close> be a device of a catalog that assigns no slug \<open>__proto__\<close>,
  indexed by \<open>getDevices\<close>. For every function entry \<open>C\<close> of \<open>D\<close>'s catalog,
  \<open>findAction\<close> with the slug derived from \<open>C\<close>'s label returns the escaped action of
  the entry the index keeps under that slug: the last entry of the catalog with that
  slug, which is \<open>C\<close> itself when no later entry shares it. An identifier that is a
  slug of the catalog resolves that way first. An identifier that is none, and is not the
  name of an inherited member, resolves to the escaped action of a kept entry whose
  \<open>name\<close> equals it, compared as strings, and to \<open>null\<close> exactly when no kept entry
  has that name.

  The claim as stated fails where two entries of a device share a slug: the sample
  receiver has the labels \<open>Input HDMI 1\<close> and \<open>Input Hdmi-1\<close>, and the slug of the
  first resolves to the action of the second.
\<close>

theorem findAction_resolves:
  assumes "dev = indexDevice parameterize d" and "plain_device parameterize d"
  shows "(\<forall>f \<in> set (catalog_funcs (device_controlGroup d)).
            \<exists>g. slug_owner parameterize (device_controlGroup d) (parameterize (label f)) = Some g
              \<and> findAction (Own dev) (parameterize (label f))
                  = Inr (ActionString (escape (action g))))
       \<and> (\<forall>g. slug_owner parameterize (device_controlGroup d) ident = Some g \<longrightarrow>
            findAction (Own dev) ident = Inr (ActionString (escape (action g))))
       \<and> (ident \<notin> set objectPrototypeKeys \<longrightarrow>
          slug_owner parameterize (device_controlGroup d) ident = None \<longrightarrow>
            (\<exists>g. slug_owner parameterize (device_controlGroup d) (parameterize (label g)) = Some g
               \<and> name g = ident
               \<and> findAction (Own dev) ident = Inr (ActionString (escape (action g))))
            \<or> ((\<forall>g. slug_owner parameterize (device_controlGroup d) (parameterize (label g))
                       = Some g \<longrightarrow> name g \<noteq> ident)
               \<and> findAction (Own dev) ident = Inr ActionNull))
       \<and> (ident \<notin> set objectPrototypeKeys \<longrightarrow>
            (findAction (Own dev) ident = Inr ActionNull \<longleftrightarrow>
               slug_owner parameterize (device_controlGroup d) ident = None
               \<and> (\<forall>g. slug_owner parameterize (device_controlGroup d) (parameterize (label g))
                        = Some g \<longrightarrow> name g \<noteq> ident)))"
proof (intro conjI)
  show "\<forall>f \<in> set (catalog_funcs (device_controlGroup d)).
            \<exists>g. slug_owner parameterize (device_controlGroup d) (parameterize (label f)) = Some g
              \<and> findAction (Own dev) (parameterize (label f))
                  = Inr (ActionString (escape (action g)))"
  proof
    fix f assume "f \<in> set (catalog_funcs (device_controlGroup d))"
    then obtain g where
      "slug_owner parameterize (device_controlGroup d) (parameterize (label f)) = Some g"
      using slug_owner_exists by blast
    with findAction_slug_hit[OF this] assms(1)
    show "\<exists>g. slug_owner parameterize (device_controlGroup d) (parameterize (label f)) = Some g
              \<and> findAction (Own dev) (parameterize (label f))
                  = Inr (ActionString (escape (action g)))"
      by blast
  qed
next
  show "\<forall>g. slug_owner parameterize (device_controlGroup d) ident = Some g \<longrightarrow>
            findAction (Own dev) ident = Inr (ActionString (escape (action g)))"
    using assms(1) by (simp add: findAction_slug_hit)
next
  show "ident \<notin> set objectPrototypeKeys \<longrightarrow>
          slug_owner parameterize (device_controlGroup d) ident = None \<longrightarrow>
            (\<exists>g. slug_owner parameterize (device_controlGroup d) (parameterize (label g)) = Some g
               \<and> name g = ident
               \<and> findAction (Own dev) ident = Inr (ActionString (escape (action g))))
            \<or> ((\<forall>g. slug_owner parameterize (device_controlGroup d) (parameterize (label g))
                       = Some g \<longrightarrow> name g \<noteq> ident)
               \<and> findAction (Own dev) ident = Inr ActionNull)"
    using assms(1) findAction_name_fallback[of parameterize d ident] by blast
next
  show "ident \<notin> set objectPrototypeKeys \<longrightarrow>
            (findAction (Own dev) ident = Inr ActionNull \<longleftrightarrow>
               slug_owner parameterize (device_controlGroup d) ident = None
               \<and> (\<forall>g. slug_owner parameterize (device_controlGroup d) (parameterize (label g))
                        = Some g \<longrightarrow> name g \<noteq> ident))"
  proof
    assume plain: "ident \<notin> set objectPrototypeKeys"
    show "findAction (Own dev) ident = Inr ActionNull \<longleftrightarrow>
               slug_owner parameterize (device_controlGroup d) ident = None
               \<and> (\<forall>g. slug_owner parameterize (device_controlGroup d) (parameterize (label g))
                        = Some g \<longrightarrow> name g \<noteq> ident)"
    proof (cases "slug_owner parameterize (device_controlGroup d) ident")
      case (Some g)
      with findAction_slug_hit[OF Some] assms(1) show ?thesis by simp
    next
      case None
      from findAction_name_fallback[OF None plain] None assms(1) show ?thesis by auto
    qed
  qed
qed

theorem findAction_resolves_witness:
  "tv_indexed = indexDevice slugify tv
   \<and> plain_device slugify tv
   \<and> volume_up \<in> set (catalog_funcs (device_controlGroup tv))
   \<and> slugify (label volume_up) = ''volume-up''
   \<and> slug_owner slugify (device_controlGroup tv) ''volume-up'' = Some volume_up
   \<and> findAction (Own tv_indexed) ''volume-up'' = Inr (ActionString (escape (action volume_up)))
   \<and> ''PowerToggle'' \<notin> set objectPrototypeKeys
   \<and> slug_owner slugify (device_controlGroup tv) ''PowerToggle'' = None
   \<and> findAction (Own tv_indexed) ''PowerToggle''
        = Inr (ActionString (escape (action power_toggle)))
   \<and> ''Mute'' \<notin> set objectPrototypeKeys
   \<and> slug_owner slugify (device_controlGroup tv) ''Mute'' = None
   \<and> findAction (Own tv_indexed) ''Mute'' = Inr ActionNull"
proof -
  have h0: "tv_indexed = indexDevice slugify tv" by (rule tv_indexed_def)
  have h1: "plain_device slugify tv" by code_simp
  have h2: "volume_up \<in> set (catalog_funcs (device_controlGroup tv))" by code_simp
  have h3: "slugify (label volume_up) = ''volume-up''" by code_simp
  have h4: "slug_owner slugify (device_controlGroup tv) ''volume-up'' = Some volume_up"
    by code_simp
  have h5: "''PowerToggle'' \<notin> set objectPrototypeKeys" by code_simp
  have h6: "slug_owner slugify (device_controlGroup tv) ''PowerToggle'' = None" by code_simp
  have h7: "findAction (Own tv_indexed) ''PowerToggle''
              = Inr (ActionString (escape (action power_toggle)))"
    by code_simp
  have h8: "''Mute'' \<notin> set objectPrototypeKeys" by code_simp
  have h9: "slug_owner slugify (device_controlGroup tv) ''Mute'' = None" by code_simp
  have h10: "\<forall>g. slug_owner slugify (device_controlGroup tv) (slugify (label g)) = Some g
               \<longrightarrow> name g \<noteq> ''Mute''"
  proof (intro allI impI)
    fix g assume "slug_owner slugify (device_controlGroup tv) (slugify (label g)) = Some g"
    then have "g \<in> set (catalog_funcs (device_controlGroup tv))" by (simp add: slug_owner_Some)
    then have "g = power_toggle \<or> g = volume_up" by (simp add: tv_def catalog_funcs_def)
    then show "name g \<noteq> ''Mute''" by (auto simp: power_toggle_def volume_up_def)
  qed
  note a = findAction_resolves [OF h0 h1, of "''volume-up''"]
  note b = findAction_resolves [OF h0 h1, of "''Mute''"]
  from a h4 have r1: "findAction (Own tv_indexed) ''volume-up''
                        = Inr (ActionString (escape (action volume_up)))"
    by blast
  from b h8 h9 h10 have r3: "findAction (Own tv_indexed) ''Mute'' = Inr ActionNull" by blast
  from h0 h1 h2 h3 h4 h5 h6 h7 h8 h9 r1 r3 show ?thesis by blast
qed

theorem findAction_resolves_counterexample:
  "input_hdmi1 \<in> set (catalog_funcs (device_controlGroup receiver))
   \<and> slugify (label input_hdmi1) = ''input-hdmi-1''
   \<and> findAction (Own (indexDevice slugify receiver)) (slugify (label input_hdmi1))
        = Inr (ActionString (escape (action input_hdmi_1)))
   \<and> escape (action input_hdmi_1) \<noteq> escape (action input_hdmi1)"
  by code_simp

subsection \<open>C5: which device a topic segment names\<close>

text \<open>
  C5, as amended. Take a catalog that assigns no key \<open>__proto__\<close>, and a fifth path
  segment that is not the name of an inherited member. In \<open>src/index.js\<close> the segment is
  resolved by one lookup, as a slug in \<open>this.deviceSlugs\<close>: it names the last device of
  the catalog whose slug it is, and a device id names nothing. In the newer revision the
  segment is looked up in the id-keyed \<open>this.devices\<close> as it stands, then as
  \<open>String(segment)\<close>, then as \<open>Number(segment)\<close>, stopping at the first hit: it names
  the last device of the catalog whose id it is, else the one whose id is the key of its
  number, and a slug names nothing.

  The claim as stated, one chain of slug, string key and numeric key, holds in neither
  revision: in \<open>src/index.js\<close> the id \<open>42\<close> of the sample device is a key of the
  device map and resolves to nothing; in the newer revision its slug \<open>tv\<close> resolves to
  nothing.
\<close>

theorem device_resolution:
  assumes "this_deviceSlugs this = Some (snd (getDevices parameterize catalog))"
      and "this_devices this = Some (fst (getDevices parameterize catalog))"
      and "plain_catalog parameterize catalog"
      and "segment \<notin> set objectPrototypeKeys"
      and "numberKey segment \<notin> set objectPrototypeKeys"
  shows "resolveDevice this (Some segment) =
           Inr (case find (\<lambda>d. parameterize (device_label d) = segment) (rev catalog) of
                  Some d \<Rightarrow> Own (indexDevice parameterize d)
                | None \<Rightarrow> Absent)
       \<and> resolveDevice_part001 numberKey this (Some segment) =
           Inr (case find (\<lambda>d. device_id d = segment) (rev catalog) of
                  Some d \<Rightarrow> Own (indexDevice parameterize d)
                | None \<Rightarrow>
                    (case find (\<lambda>d. device_id d = numberKey segment) (rev catalog) of
                       Some d \<Rightarrow> Own (indexDevice parameterize d)
                     | None \<Rightarrow> Absent))"
  using assms
  by (simp add: resolveDevice_def resolveDevice_part001_def getDevices_fold
        map_of_foldl_update_find propertyKey_def getProperty_plain split: option.splits)

theorem device_resolution_witness:
  "this_deviceSlugs sample_host = Some (snd (getDevices slugify [tv]))
   \<and> this_devices sample_host = Some (fst (getDevices slugify [tv]))
   \<and> plain_catalog slugify [tv]
   \<and> ''tv'' \<notin> set objectPrototypeKeys
   \<and> decimalKey ''tv'' \<notin> set objectPrototypeKeys
   \<and> resolveDevice sample_host (Some ''tv'') = Inr (Own tv_indexed)
   \<and> ''42'' \<notin> set objectPrototypeKeys
   \<and> decimalKey ''42'' \<notin> set objectPrototypeKeys
   \<and> resolveDevice_part001 decimalKey sample_host (Some ''42'') = Inr (Own tv_indexed)
   \<and> ''042'' \<notin> set objectPrototypeKeys
   \<and> decimalKey ''042'' = ''42''
   \<and> resolveDevice_part001 decimalKey sample_host (Some ''042'') = Inr (Own tv_indexed)"
proof -
  have h1: "this_deviceSlugs sample_host = Some (snd (getDevices slugify [tv]))"
    by (simp add: sample_host_def)
  have h2: "this_devices sample_host = Some (fst (getDevices slugify [tv]))"
    by (simp add: sample_host_def)
  have h3: "slugify (device_label tv) = ''tv''" by code_simp
  have h4: "device_id tv = ''42''" by code_simp
  have h5: "decimalKey ''042'' = ''42''" by code_simp
  have p: "plain_catalog slugify [tv]" by code_simp
  have k1: "''tv'' \<notin> set objectPrototypeKeys" by code_simp
  have k2: "decimalKey ''tv'' \<notin> set objectPrototypeKeys" by code_simp
  have k3: "''42'' \<notin> set objectPrototypeKeys" by code_simp
  have k4: "decimalKey ''42'' \<notin> set objectPrototypeKeys" by code_simp
  have k5: "''042'' \<notin> set objectPrototypeKeys" by code_simp
  have k6: "decimalKey ''042'' \<notin> set objectPrototypeKeys" by code_simp
  from device_resolution [where numberKey = decimalKey and segment = "''tv''", OF h1 h2 p k1 k2]
  have a: "resolveDevice sample_host (Some ''tv'') = Inr (Own tv_indexed)"
    by (simp add: h3 tv_indexed_def)
  from device_resolution [where numberKey = decimalKey and segment = "''42''", OF h1 h2 p k3 k4]
  have b: "resolveDevice_part001 decimalKey sample_host (Some ''42'') = Inr (Own tv_indexed)"
    by (simp add: h4 tv_indexed_def)
  from device_resolution [where numberKey = decimalKey and segment = "''042''", OF h1 h2 p k5 k6]
  have c: "resolveDevice_part001 decimalKey sample_host (Some ''042'') = Inr (Own tv_indexed)"
    by (simp add: h4 h5 tv_indexed_def)
  from h1 h2 h5 p k1 k2 k3 k4 k5 a b c show ?thesis by blast
qed

theorem device_resolution_counterexample:
  "this_devices sample_host = Some (fst (getDevices slugify [tv]))
   \<and> map_of (fst (getDevices slugify [tv])) ''42'' = Some tv_indexed
   \<and> resolveDevice sample_host (Some ''42'') = Inr Absent
   \<and> this_deviceSlugs sample_host = Some (snd (getDevices slugify [tv]))
   \<and> map_of (snd (getDevices slugify [tv])) ''tv'' = Some tv_indexed
   \<and> resolveDevice_part001 decimalKey sample_host (Some ''tv'') = Inr Absent"
  by code_simp

text \<open>
  A segment that names an inherited member reads that member in place of a device;
  \<open>findAction\<close> then throws, and the un-awaited promise of \<open>deviceCommand\<close> rejects
  before anything is sent.
\<close>

lemma inherited_segment_throws:
  "resolveDevice sample_host (Some ''constructor'') = Inr Inherited
   \<and> onMessage sample_host ''harmony/harmony-hub/set/device/constructor'' ''power-toggle'' hub_ok
       = \<lparr>settled = Fulfilled Undefined, detached = [Rejected TypeError], calls = [],
          after = sample_host\<rparr>"
  by code_simp

subsection \<open>C4: an unresolved device command\<close>

text \<open>
  C4. The claim holds for a command name that is absent from the current activity's map
  (nothing is sent, the host is unchanged). It fails for a device-scoped command:
  \<open>deviceCommand\<close> builds its rejections with \<open>Promise.reject(...)\<close> but does not
  return them, and goes on to send press and release with the token \<open>null\<close>. The
  theorem runs the handler on an unknown command of a known device and on an unknown
  device, in \<open>src/index.js\<close>, and on an unknown command in the newer revision.
\<close>

theorem unresolved_device_command_is_sent:
  "resolveDevice sample_host (Some ''tv'') = Inr (Own tv_indexed)
   \<and> findAction (Own tv_indexed) ''mute'' = Inr ActionNull
   \<and> calls (onMessage sample_host ''harmony/harmony-hub/set/device/tv'' ''mute'' hub_ok)
       = [holdAction ''null'' ''press'', holdAction ''null'' ''release'']
   \<and> resolveDevice sample_host (Some ''bluray'') = Inr Absent
   \<and> calls (onMessage sample_host ''harmony/harmony-hub/set/device/bluray'' ''mute'' hub_ok)
       = [holdAction ''null'' ''press'', holdAction ''null'' ''release'']
   \<and> resolveDevice_part001 decimalKey sample_host (Some ''42'') = Inr (Own tv_indexed)
   \<and> calls (onMessage_part001 decimalKey sample_host
               ''harmony/harmony-hub/set/device/42'' ''mute'' hub_ok)
       = [holdAction ''null'' ''press'', holdAction ''null'' ''release'']"
  by code_simp

text \<open>
  In general: whenever \<open>findAction\<close> returns \<open>null\<close>, the first hub call of
  \<open>deviceCommand\<close> is a press of the token \<open>null\<close>.
\<close>

lemma unresolved_device_command_calls:
  assumes "resolveDevice this deviceSlug = Inr dev" and "findAction dev cmd = Inr ActionNull"
  shows "calls (deviceCommand this deviceSlug cmd h) \<noteq> []
       \<and> hd (calls (deviceCommand this deviceSlug cmd h)) = holdAction ''null'' ''press''
       \<and> after (deviceCommand this deviceSlug cmd h) = this"
  using assms
  by (simp add: deviceCommand_def Let_def pressRelease_def actionText_def split: sum.splits)

subsection \<open>C9: failures at the message handler\<close>

text \<open>
  C9. The claim fails on a hub-send failure during a device command: the handler calls
  \<open>deviceCommand\<close> without awaiting it, so the rejection of its promise is handled
  nowhere, in \<open>src/index.js\<close> and in the newer revision alike. In \<open>src/index.js\<close> the
  handler has no \<open>try\<close> at all, and a send failure of a \<open>command\<close> message rejects
  the handler's own promise; the newer revision catches that one.
\<close>

theorem message_failures_unhandled:
  "unhandled_rejections
     (onMessage sample_host ''harmony/harmony-hub/set/device/tv'' ''power-toggle'' hub_send_fails)
     = [HubFault]
   \<and> unhandled_rejections
     (onMessage_part001 decimalKey sample_host
        ''harmony/harmony-hub/set/device/42'' ''power-toggle'' hub_send_fails)
     = [HubFault]
   \<and> unhandled_rejections
     (onMessage sample_host ''harmony/harmony-hub/set/command'' ''VolumeUp'' hub_send_fails)
     = [HubFault]
   \<and> unhandled_rejections
     (onMessage_part001 decimalKey sample_host
        ''harmony/harmony-hub/set/command'' ''VolumeUp'' hub_send_fails)
     = []"
  by code_simp

text \<open>
  What the newer revision does catch: the listener's own promise never rejects, whatever
  the awaited call does.
\<close>

lemma caughtAtBoundary_settled: "settled (caughtAtBoundary r) \<noteq> Rejected e"
  by (cases "settled r") (simp_all add: caughtAtBoundary_def)

lemma onMessage_part001_never_rejects:
  "settled (onMessage_part001 numberKey this topic message h) \<noteq> Rejected e"
  by (simp add: onMessage_part001_def caughtAtBoundary_settled Let_def)

end
